theory Spec2Isabelle
  imports Complex_Main "HOL-Library.Sublist"
begin

section \<open>Data model of the conversion orchestrator (composables/useFFmpeg)\<close>

text \<open>
  The numbers of the preset table and the byte sizes are integers (\<open>int\<close>, \<open>nat\<close>). A
  number that a caller supplies (frame rate, loop count) is any JavaScript number: a
  finite value, where the reals stand for the doubles and 0 and -0 are one value, or NaN
  or an infinity. JavaScript strings are modelled as \<open>string\<close>, a non-ASCII character
  standing as its UTF-8 bytes.
\<close>

datatype number = Num real | NaN | Infinity | Neg_Infinity

datatype QualityPreset = Low | Medium | High | Original

text \<open>\<open>ConversionOptions\<close>: every field is optional, \<open>None\<close> is \<open>undefined\<close>.\<close>

record ConversionOptions =
  opt_fps :: "number option"
  opt_quality :: "QualityPreset option"
  opt_loop :: "number option"

record settings =
  width :: int
  colors :: int
  fps :: int

fun QUALITY_SETTINGS :: "QualityPreset \<Rightarrow> settings" where
  "QUALITY_SETTINGS Low = \<lparr>width = 320, colors = 64, fps = 10\<rparr>"
| "QUALITY_SETTINGS Medium = \<lparr>width = 480, colors = 128, fps = 12\<rparr>"
| "QUALITY_SETTINGS High = \<lparr>width = 720, colors = 256, fps = 15\<rparr>"
| "QUALITY_SETTINGS Original = \<lparr>width = 1280, colors = 256, fps = 12\<rparr>"

type_synonym bytes = "nat list"

record ConversionResult =
  blob :: bytes
  url :: nat
  size_r :: nat

definition MAX_FILE_SIZE :: nat where
  "MAX_FILE_SIZE = 100 * 1024 * 1024"

definition SUPPORTED_FORMATS :: "string list" where
  "SUPPORTED_FORMATS = [''video/mp4'', ''video/quicktime'', ''video/x-msvideo'', ''video/webm'']"

text \<open>A browser \<open>File\<close>: its name, its declared media type and its byte size.\<close>

record File =
  file_name :: string
  file_type :: string
  file_size :: nat

text \<open>
  What a JavaScript \<open>throw\<close> carries: an \<open>Error\<close> object with its message, or any other
  value (which \<open>e instanceof Error\<close> rejects).
\<close>

datatype thrown = Error string | Thrown_Value nat

subsection \<open>Strings: decimal rendering, case folding, the extension pattern, split\<close>

text \<open>The decimal digits of an integer, with a sign.\<close>

definition digit_char :: "nat \<Rightarrow> char" where
  "digit_char d = ''0123456789'' ! d"

fun digits :: "nat \<Rightarrow> string" where
  "digits n = (if n < 10 then [digit_char n] else digits (n div 10) @ [digit_char (n mod 10)])"

declare digits.simps [simp del]

definition js_string_of :: "int \<Rightarrow> string" where
  "js_string_of n = (if n < 0 then CHR ''-'' # digits (nat (- n)) else digits (nat n))"

text \<open>
  \<open>String(x)\<close> and \<open>`${x}`\<close> of a number. An integer up to \<open>Number.MAX_SAFE_INTEGER\<close> in
  absolute value is printed as its decimal digits. What the runtime prints for any other
  finite number (a fraction, exponent notation from 1e21 on) is the parameter \<open>other\<close>.
\<close>

definition MAX_SAFE_INTEGER :: real where
  "MAX_SAFE_INTEGER = 9007199254740991"

definition is_safe_integer :: "real \<Rightarrow> bool" where
  "is_safe_integer r = (of_int \<lfloor>r\<rfloor> = r \<and> \<bar>r\<bar> \<le> MAX_SAFE_INTEGER)"

definition number_to_string :: "(real \<Rightarrow> string) \<Rightarrow> number \<Rightarrow> string" where
  "number_to_string other x =
     (case x of
        Num r \<Rightarrow> if is_safe_integer r then js_string_of \<lfloor>r\<rfloor> else other r
      | NaN \<Rightarrow> ''NaN''
      | Infinity \<Rightarrow> ''Infinity''
      | Neg_Infinity \<Rightarrow> ''-Infinity'')"

text \<open>
  The \<open>i\<close> flag of a pattern without the \<open>u\<close> flag compares the upper-case forms of
  two characters; on the letters of the pattern this is ASCII case folding.
\<close>

definition UPPER_CASE :: "(char \<times> char) list" where
  "UPPER_CASE = zip ''abcdefghijklmnopqrstuvwxyz'' ''ABCDEFGHIJKLMNOPQRSTUVWXYZ''"

definition canonicalize :: "char \<Rightarrow> char" where
  "canonicalize c = (case map_of UPPER_CASE c of None \<Rightarrow> c | Some u \<Rightarrow> u)"

text \<open>
  \<open>/\.(mov|mp4|avi|webm)$/i\<close>: the pattern is tried at every start position; at one of
  them a literal dot is followed by one of the alternatives and then the end of input.
\<close>

definition EXT_ALTERNATIVES :: "string list" where
  "EXT_ALTERNATIVES = [''mov'', ''mp4'', ''avi'', ''webm'']"

definition ext_pattern_at :: "string \<Rightarrow> bool" where
  "ext_pattern_at s =
     (case s of [] \<Rightarrow> False
      | c # cs \<Rightarrow> c = CHR ''.'' \<and>
          list_ex (\<lambda>alt. map canonicalize cs = map canonicalize alt) EXT_ALTERNATIVES)"

fun ext_pattern_test :: "string \<Rightarrow> bool" where
  "ext_pattern_test [] = False"
| "ext_pattern_test (c # cs) = (ext_pattern_at (c # cs) \<or> ext_pattern_test cs)"

text \<open>\<open>String.prototype.split\<close> with a one-character separator.\<close>

fun js_split :: "char \<Rightarrow> string \<Rightarrow> string list" where
  "js_split sep [] = [[]]"
| "js_split sep (c # cs) =
     (if c = sep then [] # js_split sep cs
      else (case js_split sep cs of [] \<Rightarrow> [[c]] | s # ss \<Rightarrow> (c # s) # ss))"

text \<open>\<open>Array.prototype.pop\<close>: the last element, \<open>undefined\<close> (here \<open>None\<close>) on an empty array.\<close>

definition pop :: "'a list \<Rightarrow> 'a option" where
  "pop xs = (case rev xs of [] \<Rightarrow> None | x # _ \<Rightarrow> Some x)"

subsection \<open>validateFile\<close>

definition pl_l :: string where "pl_l = [CHR 0xC5, CHR 0x82]"
definition pl_z :: string where "pl_z = [CHR 0xC5, CHR 0xBC]"
definition pl_Z :: string where "pl_Z = [CHR 0xC5, CHR 0xBB]"
definition pl_a :: string where "pl_a = [CHR 0xC4, CHR 0x85]"
definition pl_e :: string where "pl_e = [CHR 0xC4, CHR 0x99]"
definition pl_c :: string where "pl_c = [CHR 0xC4, CHR 0x87]"
definition pl_s :: string where "pl_s = [CHR 0xC5, CHR 0x9B]"
definition pl_n :: string where "pl_n = [CHR 0xC5, CHR 0x84]"
definition pl_x :: string where "pl_x = [CHR 0xC5, CHR 0xBA]"

definition UnsupportedFormatError :: thrown where
  "UnsupportedFormatError =
     Error (''Nieobs'' @ pl_l @ ''ugiwany format pliku. U'' @ pl_z @ ''yj MP4, MOV, AVI lub WebM.'')"

definition FileTooLargeError :: thrown where
  "FileTooLargeError =
     Error (''Plik jest za du'' @ pl_z @ ''y. Maksymalny rozmiar to ''
            @ js_string_of (int (MAX_FILE_SIZE div 1024 div 1024)) @ ''MB.'')"

definition validateFile :: "File \<Rightarrow> thrown + unit" where
  "validateFile f =
     (if file_type f \<notin> set SUPPORTED_FORMATS \<and> \<not> ext_pattern_test (file_name f)
      then Inl UnsupportedFormatError
      else if file_size f > MAX_FILE_SIZE then Inl FileTooLargeError
      else Inr ())"

subsection \<open>The parameters convertToGif derives from its options\<close>

record params =
  p_fps :: number
  p_width :: int
  p_colors :: int
  p_loop :: number

definition derive_params :: "ConversionOptions \<Rightarrow> params" where
  "derive_params options =
     (let quality = (case opt_quality options of None \<Rightarrow> High | Some q \<Rightarrow> q);
          customFps = opt_fps options;
          loop = (case opt_loop options of None \<Rightarrow> Num 0 | Some l \<Rightarrow> l);
          settings = QUALITY_SETTINGS quality;
          fps = (case customFps of None \<Rightarrow> Num (of_int (fps settings)) | Some v \<Rightarrow> v)
      in \<lparr>p_fps = fps, p_width = width settings, p_colors = colors settings, p_loop = loop\<rparr>)"

definition inputExt :: "string \<Rightarrow> string" where
  "inputExt name =
     (case pop (js_split (CHR ''.'') name) of
        None \<Rightarrow> ''mp4''
      | Some seg \<Rightarrow> if seg = [] then ''mp4'' else seg)"

definition inputName :: "File \<Rightarrow> string" where
  "inputName f = ''input.'' @ inputExt (file_name f)"

definition outputName :: string where
  "outputName = ''output.gif''"

definition filter_expr :: "(real \<Rightarrow> string) \<Rightarrow> params \<Rightarrow> string" where
  "filter_expr other ps =
     ''fps='' @ number_to_string other (p_fps ps) @ '',scale='' @ js_string_of (p_width ps)
     @ '':-1:flags=lanczos,split[s0][s1];[s0]palettegen=max_colors='' @ js_string_of (p_colors ps)
     @ ''[p];[s1][p]paletteuse=dither=floyd_steinberg''"

definition exec_args :: "(real \<Rightarrow> string) \<Rightarrow> File \<Rightarrow> params \<Rightarrow> string list" where
  "exec_args other f ps =
     [''-i'', inputName f, ''-vf'', filter_expr other ps,
      ''-loop'', number_to_string other (p_loop ps), outputName]"


section \<open>The reactive state and the external world\<close>

datatype toast_type = success | error_toast

text \<open>
  Every \<open>ref\<close> of the composable (\<open>ffmpeg\<close> to \<open>isLoaded\<close>) and of the component
  (\<open>selectedFile\<close> to \<open>selectedQuality\<close>). An engine instance and an object URL are
  identified by a number.
\<close>

record refs =
  ffmpeg :: "nat option"
  isLoading :: bool
  isConverting :: bool
  progress :: int
  error :: "string option"
  isLoaded :: bool
  selectedFile :: "File option"
  isDragOver :: bool
  result :: "ConversionResult option"
  toast :: "(string \<times> toast_type) option"
  selectedQuality :: QualityPreset

text \<open>The calls that leave the program: module loading, the engine, the network, the URL store.\<close>

datatype event =
    Import string
  | New_FFmpeg nat
  | ToBlobURL string string
  | Load nat
  | FetchFile File
  | WriteFile nat string
  | Exec nat "string list"
  | ReadFile nat string
  | DeleteFile nat string
  | CreateObjectURL nat
  | RevokeObjectURL nat

text \<open>
  The world is the refs, the log of external calls made so far, each with whether it
  returned normally and with the refs as they were when the call was made, and the next
  fresh instance and object URL.
\<close>

record world = refs +
  trace :: "(event \<times> bool \<times> refs) list"
  next_instance :: nat
  next_url :: nat

text \<open>
  What the environment answers to each external call during one operation: it throws
  (\<open>Inl\<close>) or returns. The engine reports progress ratios while it executes a command.
  \<open>env_toString\<close> is what the runtime prints for a finite number that is not a safe
  integer.
\<close>

record env =
  env_import :: "string \<Rightarrow> thrown + unit"
  env_toBlobURL :: "string \<Rightarrow> thrown + unit"
  env_load :: "thrown + unit"
  env_fetchFile :: "File \<Rightarrow> thrown + bytes"
  env_writeFile :: "string \<Rightarrow> thrown + unit"
  env_exec :: "string list \<Rightarrow> real list \<times> (thrown + int)"
  env_readFile :: "string \<Rightarrow> thrown + bytes"
  env_deleteFile :: "string \<Rightarrow> thrown + unit"
  env_toString :: "real \<Rightarrow> string"

type_synonym 'a action = "world \<Rightarrow> (thrown + 'a) \<times> world"

definition emit :: "event \<Rightarrow> bool \<Rightarrow> world \<Rightarrow> world" where
  "emit ev returned w = w\<lparr>trace := trace w @ [(ev, returned, refs.truncate w)]\<rparr>"

definition call :: "event \<Rightarrow> thrown + 'a \<Rightarrow> 'a action" where
  "call ev outcome w = (outcome, emit ev (\<not> isl outcome) w)"

definition seq :: "'a action \<Rightarrow> ('a \<Rightarrow> 'b action) \<Rightarrow> 'b action" where
  "seq m f w = (case m w of (Inl e, w') \<Rightarrow> (Inl e, w') | (Inr x, w') \<Rightarrow> f x w')"

definition try_catch :: "'a action \<Rightarrow> (thrown \<Rightarrow> 'a action) \<Rightarrow> 'a action" where
  "try_catch m h w = (case m w of (Inl e, w') \<Rightarrow> h e w' | (Inr x, w') \<Rightarrow> (Inr x, w'))"

definition try_finally :: "'a action \<Rightarrow> (world \<Rightarrow> world) \<Rightarrow> 'a action" where
  "try_finally m fin w = (case m w of (r, w') \<Rightarrow> (r, fin w'))"

section \<open>loadFFmpeg\<close>

definition baseURL :: string where
  "baseURL = ''https://unpkg.com/@ffmpeg/core@0.12.6/dist/esm''"

definition LOAD_FAILED_MESSAGE :: string where
  "LOAD_FAILED_MESSAGE =
     ''Nie uda'' @ pl_l @ ''o si'' @ pl_e @ '' za'' @ pl_l @ ''adowa'' @ pl_c
     @ '' FFmpeg. Sprawd'' @ pl_x @ '' po'' @ pl_l @ pl_a @ ''czenie internetowe.''"

definition new_FFmpeg :: "nat action" where
  "new_FFmpeg w =
     (Inr (next_instance w),
      emit (New_FFmpeg (next_instance w)) True (w\<lparr>next_instance := next_instance w + 1\<rparr>))"

definition load_try :: "env \<Rightarrow> unit action" where
  "load_try env =
     seq (call (Import ''@ffmpeg/ffmpeg'') (env_import env ''@ffmpeg/ffmpeg'')) (\<lambda>_.
     seq (call (Import ''@ffmpeg/util'') (env_import env ''@ffmpeg/util'')) (\<lambda>_.
     seq new_FFmpeg (\<lambda>instance.
     seq (call (ToBlobURL (baseURL @ ''/ffmpeg-core.js'') ''text/javascript'')
            (env_toBlobURL env (baseURL @ ''/ffmpeg-core.js''))) (\<lambda>_.
     seq (call (ToBlobURL (baseURL @ ''/ffmpeg-core.wasm'') ''application/wasm'')
            (env_toBlobURL env (baseURL @ ''/ffmpeg-core.wasm''))) (\<lambda>_.
     seq (call (Load instance) (env_load env)) (\<lambda>_.
     (\<lambda>w. (Inr (), w\<lparr>ffmpeg := Some instance, isLoaded := True\<rparr>))))))))"

definition load_catch :: "thrown \<Rightarrow> unit action" where
  "load_catch e w = (Inl e, w\<lparr>error := Some LOAD_FAILED_MESSAGE\<rparr>)"

definition load_finally :: "world \<Rightarrow> world" where
  "load_finally w = w\<lparr>isLoading := False\<rparr>"

definition loadFFmpeg :: "env \<Rightarrow> unit action" where
  "loadFFmpeg env w =
     (if ffmpeg w \<noteq> None \<and> isLoaded w then (Inr (), w)
      else try_finally (try_catch (load_try env) load_catch) load_finally
             (w\<lparr>isLoading := True, error := None\<rparr>))"

section \<open>convertToGif\<close>

definition UNKNOWN_ERROR_MESSAGE :: string where
  "UNKNOWN_ERROR_MESSAGE =
     ''Wyst'' @ pl_a @ ''pi'' @ pl_l @ '' nieznany b'' @ pl_l @ pl_a @ ''d podczas konwersji.''"

text \<open>
  The \<open>progress\<close> handler registered on the instance: \<open>Math.round(p * 100)\<close>, which
  rounds a half upwards. The product is the exact one here; the code's is its nearest
  double.
\<close>

definition on_progress :: "world \<Rightarrow> real \<Rightarrow> world" where
  "on_progress w p = w\<lparr>progress := round (p * 100)\<rparr>"

definition exec :: "env \<Rightarrow> nat \<Rightarrow> string list \<Rightarrow> int action" where
  "exec env instance args w =
     (case env_exec env args of
        (ratios, outcome) \<Rightarrow>
          (outcome, foldl on_progress (emit (Exec instance args) (\<not> isl outcome) w) ratios))"

definition createObjectURL :: "nat action" where
  "createObjectURL w =
     (Inr (next_url w), emit (CreateObjectURL (next_url w)) True (w\<lparr>next_url := next_url w + 1\<rparr>))"

text \<open>
  \<open>ffmpeg.value!\<close> asserts nothing at run time: reading \<open>writeFile\<close> of \<open>null\<close> throws a
  \<open>TypeError\<close>, whose message text is the browser's.
\<close>

definition member_of_instance :: "nat option \<Rightarrow> nat action" where
  "member_of_instance instance w =
     (case instance of None \<Rightarrow> (Inl (Error ''TypeError''), w) | Some i \<Rightarrow> (Inr i, w))"

text \<open>The statements of the \<open>try\<close> block that follow the engine check.\<close>

definition convert_engine :: "env \<Rightarrow> File \<Rightarrow> params \<Rightarrow> ConversionResult action" where
  "convert_engine env file ps =
     seq (\<lambda>w. (Inr (ffmpeg w), w)) (\<lambda>instance.
     seq (call (Import ''@ffmpeg/util'') (env_import env ''@ffmpeg/util'')) (\<lambda>_.
     seq (member_of_instance instance) (\<lambda>i.
     seq (call (FetchFile file) (env_fetchFile env file)) (\<lambda>_.
     seq (call (WriteFile i (inputName file)) (env_writeFile env (inputName file))) (\<lambda>_.
     seq (exec env i (exec_args (env_toString env) file ps)) (\<lambda>_.
     seq (call (ReadFile i outputName) (env_readFile env outputName)) (\<lambda>data.
     seq createObjectURL (\<lambda>u.
     seq (call (DeleteFile i (inputName file)) (env_deleteFile env (inputName file))) (\<lambda>_.
     seq (call (DeleteFile i outputName) (env_deleteFile env outputName)) (\<lambda>_.
     (\<lambda>w. (Inr \<lparr>blob = data, url = u, size_r = length data\<rparr>, w))))))))))))"

definition ensure_loaded :: "env \<Rightarrow> unit action" where
  "ensure_loaded env w =
     (if ffmpeg w = None \<or> \<not> isLoaded w then loadFFmpeg env w else (Inr (), w))"

definition convert_try :: "env \<Rightarrow> File \<Rightarrow> params \<Rightarrow> ConversionResult action" where
  "convert_try env file ps =
     seq (\<lambda>w. (validateFile file, w)) (\<lambda>_.
     seq (ensure_loaded env) (\<lambda>_.
     convert_engine env file ps))"

definition error_message :: "thrown \<Rightarrow> string" where
  "error_message e = (case e of Error m \<Rightarrow> m | Thrown_Value _ \<Rightarrow> UNKNOWN_ERROR_MESSAGE)"

definition convert_catch :: "thrown \<Rightarrow> ConversionResult action" where
  "convert_catch e w = (Inl e, w\<lparr>error := Some (error_message e)\<rparr>)"

definition convert_finally :: "world \<Rightarrow> world" where
  "convert_finally w = w\<lparr>isConverting := False, progress := 0\<rparr>"

text \<open>The three assignments before the \<open>try\<close> block.\<close>

definition convert_prologue :: "world \<Rightarrow> world" where
  "convert_prologue w = w\<lparr>error := None, progress := 0, isConverting := True\<rparr>"

definition convertToGif :: "env \<Rightarrow> File \<Rightarrow> ConversionOptions \<Rightarrow> ConversionResult action" where
  "convertToGif env file options w =
     try_finally (try_catch (convert_try env file (derive_params options)) convert_catch)
       convert_finally
       (convert_prologue w)"

definition cleanup :: "nat \<Rightarrow> world \<Rightarrow> world" where
  "cleanup u w = emit (RevokeObjectURL u) True w"

section \<open>The component (App.vue)\<close>

definition showToast :: "string \<Rightarrow> toast_type \<Rightarrow> world \<Rightarrow> world" where
  "showToast message ty w = w\<lparr>toast := Some (message, ty)\<rparr>"

definition isVideoFile :: "File \<Rightarrow> bool" where
  "isVideoFile f = (prefix ''video/'' (file_type f) \<or> ext_pattern_test (file_name f))"

definition selectFile :: "File \<Rightarrow> world \<Rightarrow> world" where
  "selectFile f w =
     (let w1 = (case result w of
                  Some r \<Rightarrow> (cleanup (url r) w)\<lparr>result := None\<rparr>
                | None \<Rightarrow> w)
      in w1\<lparr>selectedFile := Some f\<rparr>)"

definition clearFile :: "world \<Rightarrow> world" where
  "clearFile w =
     (let w1 = w\<lparr>selectedFile := None\<rparr>
      in case result w1 of
           Some r \<Rightarrow> (cleanup (url r) w1)\<lparr>result := None\<rparr>
         | None \<Rightarrow> w1)"

definition handleDragOver :: "world \<Rightarrow> world" where
  "handleDragOver w = w\<lparr>isDragOver := True\<rparr>"

definition handleDragLeave :: "world \<Rightarrow> world" where
  "handleDragLeave w = w\<lparr>isDragOver := False\<rparr>"

definition handleDrop :: "File option \<Rightarrow> world \<Rightarrow> world" where
  "handleDrop dropped w =
     (let w1 = w\<lparr>isDragOver := False\<rparr>
      in case dropped of
           Some f \<Rightarrow> if isVideoFile f then selectFile f w1
                     else showToast ''Wybierz plik wideo (MP4, MOV, AVI, WebM)'' error_toast w1
         | None \<Rightarrow> showToast ''Wybierz plik wideo (MP4, MOV, AVI, WebM)'' error_toast w1)"

definition handleFileInput :: "File option \<Rightarrow> world \<Rightarrow> world" where
  "handleFileInput picked w = (case picked of Some f \<Rightarrow> selectFile f w | None \<Rightarrow> w)"

definition CONVERT_OK_MESSAGE :: string where
  "CONVERT_OK_MESSAGE = ''Konwersja zako'' @ pl_n @ ''czona pomy'' @ pl_s @ ''lnie!''"

definition CONVERT_FAILED_MESSAGE :: string where
  "CONVERT_FAILED_MESSAGE =
     ''Wyst'' @ pl_a @ ''pi'' @ pl_l @ '' b'' @ pl_l @ pl_a @ ''d podczas konwersji''"

text \<open>\<open>ffmpegError.value || fallback\<close>: \<open>null\<close> and the empty string are falsy.\<close>

definition or_default :: "string option \<Rightarrow> string \<Rightarrow> string" where
  "or_default v d = (case v of None \<Rightarrow> d | Some m \<Rightarrow> if m = [] then d else m)"

definition handleConvert :: "env \<Rightarrow> world \<Rightarrow> world" where
  "handleConvert env w =
     (case selectedFile w of
        None \<Rightarrow> w
      | Some f \<Rightarrow>
          (case convertToGif env f
                  \<lparr>opt_fps = None, opt_quality = Some (selectedQuality w), opt_loop = None\<rparr> w of
             (Inr res, w') \<Rightarrow> showToast CONVERT_OK_MESSAGE success (w'\<lparr>result := Some res\<rparr>)
           | (Inl e, w') \<Rightarrow> showToast (or_default (error w') CONVERT_FAILED_MESSAGE) error_toast w'))"

definition onUnmounted :: "world \<Rightarrow> world" where
  "onUnmounted w = (case result w of Some r \<Rightarrow> cleanup (url r) w | None \<Rightarrow> w)"

text \<open>
  What the user, or a caller of the composable, can do, one operation after the other.
  Downloading the result changes no ref and releases nothing.
\<close>

datatype operation =
    DragOver
  | DragLeave
  | Drop "File option"
  | FileInput "File option"
  | SelectQuality QualityPreset
  | ClearFile
  | Convert env
  | LoadFFmpeg env
  | ConvertToGif env File ConversionOptions

fun step :: "operation \<Rightarrow> world \<Rightarrow> world" where
  "step DragOver w = handleDragOver w"
| "step DragLeave w = handleDragLeave w"
| "step (Drop fo) w = handleDrop fo w"
| "step (FileInput fo) w = handleFileInput fo w"
| "step (SelectQuality q) w = w\<lparr>selectedQuality := q\<rparr>"
| "step ClearFile w = clearFile w"
| "step (Convert env) w = handleConvert env w"
| "step (LoadFFmpeg env) w = snd (loadFFmpeg env w)"
| "step (ConvertToGif env f options) w = snd (convertToGif env f options w)"

fun run :: "operation list \<Rightarrow> world \<Rightarrow> world" where
  "run [] w = w"
| "run (x # xs) w = run xs (step x w)"

definition init :: world where
  "init = \<lparr>ffmpeg = None, isLoading = False, isConverting = False, progress = 0, error = None,
     isLoaded = False, selectedFile = None, isDragOver = False, result = None, toast = None,
     selectedQuality = High, trace = [], next_instance = 0, next_url = 0\<rparr>"

text \<open>The external calls made since an earlier world.\<close>

definition new_events :: "world \<Rightarrow> world \<Rightarrow> (event \<times> bool \<times> refs) list" where
  "new_events w w' = drop (length (trace w)) (trace w')"

text \<open>The object URLs released, the engine initialisations that succeeded.\<close>

fun revoked :: "(event \<times> bool \<times> refs) list \<Rightarrow> nat list" where
  "revoked [] = []"
| "revoked ((RevokeObjectURL u, _) # es) = u # revoked es"
| "revoked (_ # es) = revoked es"

fun initialisations :: "(event \<times> bool \<times> refs) list \<Rightarrow> nat list" where
  "initialisations [] = []"
| "initialisations ((Load i, True, _) # es) = i # initialisations es"
| "initialisations (_ # es) = initialisations es"

text \<open>The commands given to the engine, the names of the virtual files written.\<close>

fun commands :: "(event \<times> bool \<times> refs) list \<Rightarrow> (nat \<times> string list) list" where
  "commands [] = []"
| "commands ((Exec i args, _) # es) = (i, args) # commands es"
| "commands (_ # es) = commands es"

fun written :: "(event \<times> bool \<times> refs) list \<Rightarrow> string list" where
  "written [] = []"
| "written ((WriteFile _ name, _) # es) = name # written es"
| "written (_ # es) = written es"

text \<open>The engine is ready: the test of \<open>loadFFmpeg\<close> and \<open>convertToGif\<close>.\<close>

definition ready :: "world \<Rightarrow> bool" where
  "ready w = (ffmpeg w \<noteq> None \<and> isLoaded w)"

text \<open>The calls that fetch or create an engine, and the instance an engine call is made on.\<close>

fun engine_init_event :: "event \<Rightarrow> bool" where
  "engine_init_event (Import m) = (m = ''@ffmpeg/ffmpeg'')"
| "engine_init_event (New_FFmpeg _) = True"
| "engine_init_event (ToBlobURL _ _) = True"
| "engine_init_event (Load _) = True"
| "engine_init_event _ = False"

fun event_instance :: "event \<Rightarrow> nat option" where
  "event_instance (WriteFile i _) = Some i"
| "event_instance (Exec i _) = Some i"
| "event_instance (ReadFile i _) = Some i"
| "event_instance (DeleteFile i _) = Some i"
| "event_instance _ = None"

section \<open>The specification's words, to compare with the code\<close>

definition LOWER_CASE :: "(char \<times> char) list" where
  "LOWER_CASE = zip ''ABCDEFGHIJKLMNOPQRSTUVWXYZ'' ''abcdefghijklmnopqrstuvwxyz''"

definition to_lower :: "char \<Rightarrow> char" where
  "to_lower c = (case map_of LOWER_CASE c of None \<Rightarrow> c | Some l \<Rightarrow> l)"

text \<open>The name, in lower case, ends in a dot and one of the four extensions.\<close>

definition spec_supported_extension :: "string \<Rightarrow> bool" where
  "spec_supported_extension name =
     list_ex (\<lambda>e. suffix (CHR ''.'' # e) (map to_lower name)) [''mov'', ''mp4'', ''avi'', ''webm'']"

text \<open>The last dot-separated segment: what follows the last dot, or the whole name.\<close>

definition spec_last_segment :: "string \<Rightarrow> string" where
  "spec_last_segment name = rev (takeWhile (\<lambda>c. c \<noteq> CHR ''.'') (rev name))"

text \<open>
  The two stages of the filter expression: resample, scale and split; then generate the
  palette on one branch and apply it with Floyd-Steinberg dithering on the other.
\<close>

definition spec_stage1 :: "(real \<Rightarrow> string) \<Rightarrow> number \<Rightarrow> int \<Rightarrow> string" where
  "spec_stage1 other rate w =
     ''fps='' @ number_to_string other rate @ '',scale='' @ js_string_of w
     @ '':-1:flags=lanczos,split[s0][s1]''"

definition spec_stage2 :: "int \<Rightarrow> string" where
  "spec_stage2 n =
     ''[s0]palettegen=max_colors='' @ js_string_of n
     @ ''[p];[s1][p]paletteuse=dither=floyd_steinberg''"

section \<open>Concrete inputs\<close>

definition sample_file :: File where
  "sample_file = \<lparr>file_name = ''clip.mp4'', file_type = ''video/mp4'', file_size = 5242880\<rparr>"

definition medium_options :: ConversionOptions where
  "medium_options = \<lparr>opt_fps = None, opt_quality = Some Medium, opt_loop = None\<rparr>"

text \<open>An environment in which every call returns, one in which the engine command fails,
  and one in which the engine's files cannot be fetched.\<close>

definition engine_ok :: env where
  "engine_ok = \<lparr>env_import = (\<lambda>_. Inr ()), env_toBlobURL = (\<lambda>_. Inr ()), env_load = Inr (),
     env_fetchFile = (\<lambda>_. Inr [0, 0, 0, 24]), env_writeFile = (\<lambda>_. Inr ()),
     env_exec = (\<lambda>_. ([1 / 4, 199 / 200, 1], Inr 0)),
     env_readFile = (\<lambda>_. Inr [71, 73, 70, 56, 57, 97]),
     env_deleteFile = (\<lambda>_. Inr ()),
     env_toString = (\<lambda>r. if r = 2997 / 100 then ''29.97'' else ''1e+21'')\<rparr>"

definition exec_fails :: env where
  "exec_fails = engine_ok\<lparr>env_exec := (\<lambda>_. ([1 / 2], Inl (Error ''aborted'')))\<rparr>"

definition fetch_fails :: env where
  "fetch_fails = engine_ok\<lparr>env_toBlobURL := (\<lambda>_. Inl (Thrown_Value 0))\<rparr>"

definition oversized_file :: File where
  "oversized_file = \<lparr>file_name = ''film.mov'', file_type = ''video/quicktime'', file_size = 157286400\<rparr>"

text \<open>The world after the engine has been loaded once.\<close>

definition warm :: world where
  "warm = snd (loadFFmpeg engine_ok init)"

section \<open>Invariants of the operations\<close>

text \<open>
  Object URLs: none has been released twice, every released one has been issued, and the
  URL of the current result has been issued and not released.
\<close>

definition urls_ok :: "world \<Rightarrow> bool" where
  "urls_ok w =
     (distinct (revoked (trace w))
      \<and> list_all (\<lambda>u. u < next_url w) (revoked (trace w))
      \<and> (case result w of
            None \<Rightarrow> True
          | Some r \<Rightarrow> url r < next_url w \<and> url r \<notin> set (revoked (trace w))))"

text \<open>The engine: initialised once when it is ready, never when it is not.\<close>

definition engine_once :: "world \<Rightarrow> bool" where
  "engine_once w =
     (if ready w then length (initialisations (trace w)) = 1
      else initialisations (trace w) = [])"

text \<open>An external call that neither fetches nor creates an engine and that is made, if
  on an engine, on the given one.\<close>

definition reuses :: "nat option \<Rightarrow> event \<times> bool \<times> refs \<Rightarrow> bool" where
  "reuses engine entry =
     (case entry of (ev, returned, at_call) \<Rightarrow>
        \<not> engine_init_event ev \<and> (event_instance ev = None \<or> event_instance ev = engine))"

text \<open>
  What an operation does to the engine: a ready engine stays the same one and is only
  reused; one that is not ready is initialised once if the operation makes it ready, and
  not at all otherwise.
\<close>

definition engine_kept :: "world \<Rightarrow> world \<Rightarrow> bool" where
  "engine_kept w w' =
     (if ready w
      then ready w' \<and> ffmpeg w' = ffmpeg w \<and> initialisations (new_events w w') = []
        \<and> list_all (reuses (ffmpeg w)) (new_events w w')
      else if ready w' then length (initialisations (new_events w w')) = 1
      else initialisations (new_events w w') = [])"

section \<open>Facts about the string functions\<close>





lemma to_lower_dot: "to_lower c = CHR ''.'' \<longleftrightarrow> c = CHR ''.''"
  by (auto simp: to_lower_def LOWER_CASE_def split: option.splits if_splits)

lemma dot_to_lower: "CHR ''.'' = to_lower c \<longleftrightarrow> c = CHR ''.''"
  using to_lower_dot [of c] by auto

lemma canonicalize_letters:
  "canonicalize c = canonicalize (CHR ''m'') \<longleftrightarrow> to_lower c = CHR ''m''"
  "canonicalize c = canonicalize (CHR ''o'') \<longleftrightarrow> to_lower c = CHR ''o''"
  "canonicalize c = canonicalize (CHR ''v'') \<longleftrightarrow> to_lower c = CHR ''v''"
  "canonicalize c = canonicalize (CHR ''p'') \<longleftrightarrow> to_lower c = CHR ''p''"
  "canonicalize c = canonicalize (CHR ''4'') \<longleftrightarrow> to_lower c = CHR ''4''"
  "canonicalize c = canonicalize (CHR ''a'') \<longleftrightarrow> to_lower c = CHR ''a''"
  "canonicalize c = canonicalize (CHR ''i'') \<longleftrightarrow> to_lower c = CHR ''i''"
  "canonicalize c = canonicalize (CHR ''w'') \<longleftrightarrow> to_lower c = CHR ''w''"
  "canonicalize c = canonicalize (CHR ''e'') \<longleftrightarrow> to_lower c = CHR ''e''"
  "canonicalize c = canonicalize (CHR ''b'') \<longleftrightarrow> to_lower c = CHR ''b''"
  by (auto simp: canonicalize_def UPPER_CASE_def to_lower_def LOWER_CASE_def split: option.splits if_splits)

lemma canonicalize_letter:
  "p \<in> set ''movpaiweb4'' \<Longrightarrow> canonicalize c = canonicalize p \<longleftrightarrow> to_lower c = p"
  using canonicalize_letters [of c] by auto

lemma canonicalize_word:
  "set e \<subseteq> set ''movpaiweb4'' \<Longrightarrow> map canonicalize cs = map canonicalize e \<longleftrightarrow> map to_lower cs = e"
proof (induction e arbitrary: cs)
  case Nil
  then show ?case by simp
next
  case (Cons p e)
  show ?case
  proof (cases cs)
    case Nil
    then show ?thesis by simp
  next
    case (Cons c cs')
    have "canonicalize c = canonicalize p \<longleftrightarrow> to_lower c = p"
      using Cons.prems canonicalize_letter by simp
    moreover have "map canonicalize cs' = map canonicalize e \<longleftrightarrow> map to_lower cs' = e"
      using Cons.IH Cons.prems by simp
    ultimately show ?thesis using Cons by simp
  qed
qed

lemma ext_pattern_at_iff:
  "ext_pattern_at (c # cs) \<longleftrightarrow>
     list_ex (\<lambda>e. CHR ''.'' # e = map to_lower (c # cs)) EXT_ALTERNATIVES"
proof -
  have "\<And>e. e \<in> set EXT_ALTERNATIVES \<Longrightarrow> set e \<subseteq> set ''movpaiweb4''"
    by (auto simp: EXT_ALTERNATIVES_def)
  then have "\<And>e. e \<in> set EXT_ALTERNATIVES \<Longrightarrow>
      (map canonicalize cs = map canonicalize e \<longleftrightarrow> map to_lower cs = e)"
    using canonicalize_word by blast
  then show ?thesis
    unfolding ext_pattern_at_def list_ex_iff
    by (auto simp: dot_to_lower)
qed

lemma ext_pattern_test_iff: "ext_pattern_test name \<longleftrightarrow> spec_supported_extension name"
proof (induction name)
  case Nil
  then show ?case by (simp add: spec_supported_extension_def)
next
  case (Cons c cs)
  have "spec_supported_extension (c # cs) \<longleftrightarrow>
          list_ex (\<lambda>e. CHR ''.'' # e = map to_lower (c # cs)) EXT_ALTERNATIVES
          \<or> spec_supported_extension cs"
    unfolding spec_supported_extension_def list_ex_iff EXT_ALTERNATIVES_def
    by (auto simp: suffix_Cons)
  then show ?case using Cons.IH ext_pattern_at_iff by simp
qed



lemma js_split_not_Nil: "js_split sep s \<noteq> []"
  by (induction s) (auto split: list.splits)

lemma js_split_no_sep: "sep \<notin> set s \<Longrightarrow> js_split sep s = [s]"
  by (induction s) auto

lemma js_split_append: "js_split sep (a @ sep # b) = js_split sep a @ js_split sep b"
  by (induction a) (auto split: list.splits simp: js_split_not_Nil)

lemma last_js_split: "last (js_split sep s) = rev (takeWhile (\<lambda>c. c \<noteq> sep) (rev s))"
proof (cases "sep \<in> set s")
  case False
  then have tw: "takeWhile (\<lambda>c. c \<noteq> sep) (rev s) = rev s"
    by auto
  have "last (js_split sep s) = s"
    using False by (simp add: js_split_no_sep)
  then show ?thesis unfolding tw by simp
next
  case True
  then obtain a b where s: "s = a @ sep # b" and b: "sep \<notin> set b"
    using split_list_last [of sep s] by blast
  have "takeWhile (\<lambda>c. c \<noteq> sep) (rev b @ sep # rev a) = rev b"
    using b by (auto simp: takeWhile_tail)
  then show ?thesis using s b by (simp add: js_split_append js_split_no_sep)
qed

lemma pop_js_split: "pop (js_split (CHR ''.'') name) = Some (spec_last_segment name)"
proof -
  have "pop xs = Some (last xs)" if "xs \<noteq> []" for xs :: "string list"
    using that by (cases xs rule: rev_cases) (auto simp: pop_def)
  then show ?thesis
    using js_split_not_Nil [of "CHR ''.''" name]
    by (simp add: last_js_split spec_last_segment_def)
qed

lemma spec_last_segment_no_dot: "CHR ''.'' \<notin> set name \<Longrightarrow> spec_last_segment name = name"
proof -
  assume "CHR ''.'' \<notin> set name"
  then have "takeWhile (\<lambda>c. c \<noteq> CHR ''.'') (rev name) = rev name"
    by auto
  then have "rev (takeWhile (\<lambda>c. c \<noteq> CHR ''.'') (rev name)) = rev (rev name)"
    by (rule arg_cong)
  then show ?thesis unfolding spec_last_segment_def by (simp only: rev_rev_ident)
qed

lemma spec_last_segment_empty:
  "spec_last_segment name = [] \<longleftrightarrow> name = [] \<or> last name = CHR ''.''"
  unfolding spec_last_segment_def
  by (cases name rule: rev_cases) auto

section \<open>Presets\<close>

text \<open>
  Claim C1. With no frame-rate override, convertToGif derives the fixed triple of the
  requested preset: low gives width 320, 64 colours, 10 fps; medium 480, 128, 12; high
  720, 256, 15; original 1280, 256, 12; an absent quality option counts as high.
\<close>

theorem preset_table:
  "(let ps = derive_params \<lparr>opt_fps = None, opt_quality = q, opt_loop = l\<rparr>
    in (p_width ps, p_colors ps, p_fps ps))
   = (case q of
        Some Low \<Rightarrow> (320, 64, Num 10)
      | Some Medium \<Rightarrow> (480, 128, Num 12)
      | Some High \<Rightarrow> (720, 256, Num 15)
      | Some Original \<Rightarrow> (1280, 256, Num 12)
      | None \<Rightarrow> (720, 256, Num 15))"
  by (simp add: derive_params_def split: option.splits QualityPreset.splits)

section \<open>validateFile\<close>

lemma FileTooLargeError_message:
  "FileTooLargeError = Error (''Plik jest za du'' @ pl_z @ ''y. Maksymalny rozmiar to 100MB.'')"
  by (simp add: FileTooLargeError_def MAX_FILE_SIZE_def js_string_of_def digits.simps
      digit_char_def)

lemma errors_differ: "UnsupportedFormatError \<noteq> FileTooLargeError"
  by (simp add: FileTooLargeError_message UnsupportedFormatError_def)

text \<open>
  Claim C3, as stated: every file larger than 100 MiB fails with the file-too-large
  error, whatever its type and name. A 150 MiB file named notes.txt of type text/plain
  fails with the unsupported-format error instead: the format is checked first.
\<close>

theorem too_large_unsupported_counterexample:
  "file_size \<lparr>file_name = ''notes.txt'', file_type = ''text/plain'', file_size = 157286400\<rparr>
     > 100 * 1024 * 1024
   \<and> validateFile \<lparr>file_name = ''notes.txt'', file_type = ''text/plain'', file_size = 157286400\<rparr>
     = Inl UnsupportedFormatError
   \<and> validateFile \<lparr>file_name = ''notes.txt'', file_type = ''text/plain'', file_size = 157286400\<rparr>
     \<noteq> Inl FileTooLargeError"
  by (simp add: validateFile_def SUPPORTED_FORMATS_def ext_pattern_at_def EXT_ALTERNATIVES_def
      canonicalize_def UPPER_CASE_def errors_differ)

text \<open>
  Claim C3, amended: a file larger than 100 MiB (100 * 1024 * 1024 bytes) that passes the
  format check, by its declared type or by its extension, fails with the file-too-large
  error; one that does not pass it fails with the unsupported-format error.
\<close>

theorem too_large_after_format_check:
  "file_size f > 100 * 1024 * 1024 \<Longrightarrow>
   (if file_type f \<in> set SUPPORTED_FORMATS \<or> spec_supported_extension (file_name f)
    then validateFile f = Inl FileTooLargeError
    else validateFile f = Inl UnsupportedFormatError)"
  by (simp add: validateFile_def MAX_FILE_SIZE_def ext_pattern_test_iff)

theorem too_large_after_format_check_witness:
  "file_size \<lparr>file_name = ''big.MP4'', file_type = '''', file_size = 104857601\<rparr> > 100 * 1024 * 1024
   \<and> validateFile \<lparr>file_name = ''big.MP4'', file_type = '''', file_size = 104857601\<rparr>
       = Inl FileTooLargeError"
  using too_large_after_format_check
          [of "\<lparr>file_name = ''big.MP4'', file_type = '''', file_size = 104857601\<rparr>"]
  by (simp add: spec_supported_extension_def to_lower_def LOWER_CASE_def SUPPORTED_FORMATS_def
      suffix_to_prefix)

text \<open>
  Claim C4. validateFile fails with the unsupported-format error exactly when the declared
  type is none of video/mp4, video/quicktime, video/x-msvideo, video/webm and the name
  does not end, letter case ignored, in .mov, .mp4, .avi or .webm; a file that matches the
  type list or the extension list passes the format check, and only its size is then
  looked at.
\<close>

theorem format_check:
  "(validateFile f = Inl UnsupportedFormatError
      \<longleftrightarrow> file_type f \<notin> {''video/mp4'', ''video/quicktime'', ''video/x-msvideo'', ''video/webm''}
          \<and> \<not> spec_supported_extension (file_name f))
   \<and> (file_type f \<in> {''video/mp4'', ''video/quicktime'', ''video/x-msvideo'', ''video/webm''}
        \<or> spec_supported_extension (file_name f)
      \<longleftrightarrow> validateFile f
            = (if file_size f > 100 * 1024 * 1024 then Inl FileTooLargeError else Inr ()))"
proof -
  have S: "set SUPPORTED_FORMATS
      = {''video/mp4'', ''video/quicktime'', ''video/x-msvideo'', ''video/webm''}"
    by (simp add: SUPPORTED_FORMATS_def)
  have "validateFile f = Inl UnsupportedFormatError
      \<longleftrightarrow> file_type f \<notin> set SUPPORTED_FORMATS \<and> \<not> spec_supported_extension (file_name f)"
    using errors_differ
    by (auto simp add: validateFile_def MAX_FILE_SIZE_def ext_pattern_test_iff)
  moreover have "file_type f \<in> set SUPPORTED_FORMATS \<or> spec_supported_extension (file_name f)
      \<longleftrightarrow> validateFile f
            = (if file_size f > 100 * 1024 * 1024 then Inl FileTooLargeError else Inr ())"
    using errors_differ
    by (auto simp add: validateFile_def MAX_FILE_SIZE_def ext_pattern_test_iff)
  ultimately show ?thesis unfolding S by blast
qed

theorem format_check_witness:
  "validateFile \<lparr>file_name = ''holiday.WebM'', file_type = ''application/octet-stream'',
                  file_size = 5242880\<rparr> = Inr ()
   \<and> validateFile \<lparr>file_name = ''holiday.gif'', file_type = ''image/gif'', file_size = 5242880\<rparr>
       = Inl UnsupportedFormatError
   \<and> validateFile \<lparr>file_name = ''holiday'', file_type = ''video/quicktime'', file_size = 5242880\<rparr>
       = Inr ()"
  using format_check [of "\<lparr>file_name = ''holiday.WebM'', file_type = ''application/octet-stream'',
                  file_size = 5242880\<rparr>"]
    format_check [of "\<lparr>file_name = ''holiday.gif'', file_type = ''image/gif'', file_size = 5242880\<rparr>"]
    format_check [of "\<lparr>file_name = ''holiday'', file_type = ''video/quicktime'', file_size = 5242880\<rparr>"]
  by (simp add: spec_supported_extension_def to_lower_def LOWER_CASE_def suffix_to_prefix)

section \<open>Facts about the operations\<close>

subsection \<open>The log of external calls\<close>

lemma foldl_on_progress:
  "foldl on_progress w ps = (if ps = [] then w else w\<lparr>progress := round (last ps * 100)\<rparr>)"
  by (induction ps rule: rev_induct) (auto simp: on_progress_def)

lemma truncate_simps [simp]:
  "refs.truncate (w\<lparr>trace := t\<rparr>) = refs.truncate w"
  "refs.truncate (w\<lparr>next_url := n\<rparr>) = refs.truncate w"
  "refs.truncate (w\<lparr>next_instance := n\<rparr>) = refs.truncate w"
  "ffmpeg (refs.truncate w) = ffmpeg w"
  "isLoading (refs.truncate w) = isLoading w"
  "isConverting (refs.truncate w) = isConverting w"
  "progress (refs.truncate w) = progress w"
  "error (refs.truncate w) = error w"
  "isLoaded (refs.truncate w) = isLoaded w"
  "selectedFile (refs.truncate w) = selectedFile w"
  "result (refs.truncate w) = result w"
  by (simp_all add: refs.truncate_def)

lemmas monad_defs = seq_def call_def emit_def try_catch_def try_finally_def

lemmas load_defs = loadFFmpeg_def load_try_def load_catch_def load_finally_def new_FFmpeg_def

lemmas engine_defs = convert_engine_def exec_def createObjectURL_def member_of_instance_def

lemma revoked_append: "revoked (xs @ ys) = revoked xs @ revoked ys"
  by (induction xs rule: revoked.induct) auto

lemma initialisations_append: "initialisations (xs @ ys) = initialisations xs @ initialisations ys"
  by (induction xs rule: initialisations.induct) auto

lemma commands_append: "commands (xs @ ys) = commands xs @ commands ys"
  by (induction xs rule: commands.induct) auto

lemma written_append: "written (xs @ ys) = written xs @ written ys"
  by (induction xs rule: written.induct) auto

lemma new_events_refl: "new_events w w = []"
  by (simp add: new_events_def)

lemma new_events_trans:
  "trace w1 = trace w @ new_events w w1 \<Longrightarrow> trace w2 = trace w1 @ new_events w1 w2 \<Longrightarrow>
   trace w2 = trace w @ new_events w w2 \<and> new_events w w2 = new_events w w1 @ new_events w1 w2"
  by (metis append.assoc append_eq_conv_conj new_events_def)

subsection \<open>The statements after the engine check\<close>

lemma convert_engine_trace:
  "convert_engine env file ps w = (r, w') \<Longrightarrow>
   trace w' = trace w @ new_events w w'
   \<and> (case new_events w w' of [] \<Rightarrow> False
       | (ev, ok, s) # _ \<Rightarrow> ev = Import ''@ffmpeg/util'' \<and> s = refs.truncate w)
   \<and> revoked (new_events w w') = [] \<and> initialisations (new_events w w') = []
   \<and> list_all (\<lambda>(ev, ok, s). \<not> engine_init_event ev
        \<and> (event_instance ev = None \<or> event_instance ev = ffmpeg w)) (new_events w w')
   \<and> set (written (new_events w w')) \<subseteq> {inputName file}
   \<and> set (commands (new_events w w')) \<subseteq> {(i, exec_args (env_toString env) file ps) | i. ffmpeg w = Some i}"
  by (auto simp add: engine_defs monad_defs foldl_on_progress new_events_def split: sum.splits prod.splits option.splits if_splits)

lemma convert_engine_refs:
  "convert_engine env file ps w = (r, w') \<Longrightarrow>
   ffmpeg w' = ffmpeg w \<and> isLoaded w' = isLoaded w \<and> isLoading w' = isLoading w
   \<and> isConverting w' = isConverting w \<and> error w' = error w
   \<and> result w' = result w \<and> selectedFile w' = selectedFile w
   \<and> selectedQuality w' = selectedQuality w \<and> toast w' = toast w \<and> isDragOver w' = isDragOver w
   \<and> next_instance w' = next_instance w \<and> next_url w \<le> next_url w'"
  by (auto simp add: engine_defs monad_defs foldl_on_progress split: sum.splits prod.splits option.splits if_splits)

lemma convert_engine_success:
  "convert_engine env file ps w = (Inr res, w') \<Longrightarrow>
   url res = next_url w \<and> next_url w' = Suc (next_url w)
   \<and> (\<exists>i. ffmpeg w = Some i \<and> commands (new_events w w') = [(i, exec_args (env_toString env) file ps)])
   \<and> written (new_events w w') = [inputName file]
   \<and> env_readFile env outputName = Inr (blob res) \<and> size_r res = length (blob res)"
  by (auto simp add: engine_defs monad_defs foldl_on_progress new_events_def split: sum.splits prod.splits option.splits if_splits)

lemma convert_engine_exec_fails:
  "ffmpeg w = Some i \<Longrightarrow> env_import env ''@ffmpeg/util'' = Inr () \<Longrightarrow>
   env_fetchFile env file = Inr d \<Longrightarrow> env_writeFile env (inputName file) = Inr () \<Longrightarrow>
   snd (env_exec env (exec_args (env_toString env) file ps)) = Inl e \<Longrightarrow>
   fst (convert_engine env file ps w) = Inl e"
  by (auto simp add: engine_defs monad_defs foldl_on_progress split: sum.splits prod.splits option.splits if_splits)

subsection \<open>loadFFmpeg\<close>

lemma loadFFmpeg_ready: "ready w \<Longrightarrow> loadFFmpeg env w = (Inr (), w)"
  by (simp add: loadFFmpeg_def ready_def)

lemma loadFFmpeg_trace:
  "loadFFmpeg env w = (r, w') \<Longrightarrow>
   trace w' = trace w @ new_events w w'
   \<and> revoked (new_events w w') = [] \<and> commands (new_events w w') = []
   \<and> written (new_events w w') = []
   \<and> list_all (\<lambda>(ev, ok, s). isLoading s \<and> event_instance ev = None) (new_events w w')"
  by (auto simp add: load_defs monad_defs new_events_def split: sum.splits prod.splits option.splits if_splits)

lemma loadFFmpeg_refs:
  "loadFFmpeg env w = (r, w') \<Longrightarrow>
   isConverting w' = isConverting w \<and> progress w' = progress w
   \<and> result w' = result w \<and> selectedFile w' = selectedFile w
   \<and> selectedQuality w' = selectedQuality w \<and> toast w' = toast w \<and> isDragOver w' = isDragOver w
   \<and> next_instance w \<le> next_instance w' \<and> next_url w' = next_url w"
  by (auto simp add: load_defs monad_defs split: sum.splits prod.splits option.splits if_splits)

lemma loadFFmpeg_not_ready:
  "\<not> ready w \<Longrightarrow> loadFFmpeg env w = (r, w') \<Longrightarrow>
   (case new_events w w' of [] \<Rightarrow> False
    | (ev, ok, s) # _ \<Rightarrow> ev = Import ''@ffmpeg/ffmpeg''
        \<and> s = refs.truncate (w\<lparr>isLoading := True, error := None\<rparr>))
   \<and> \<not> isLoading w'
   \<and> (case r of
        Inr _ \<Rightarrow> ffmpeg w' = Some (next_instance w) \<and> isLoaded w' \<and> error w' = None
          \<and> map fst (new_events w w') =
              [Import ''@ffmpeg/ffmpeg'', Import ''@ffmpeg/util'', New_FFmpeg (next_instance w),
               ToBlobURL (baseURL @ ''/ffmpeg-core.js'') ''text/javascript'',
               ToBlobURL (baseURL @ ''/ffmpeg-core.wasm'') ''application/wasm'',
               Load (next_instance w)]
          \<and> initialisations (new_events w w') = [next_instance w]
      | Inl e \<Rightarrow> ffmpeg w' = ffmpeg w \<and> isLoaded w' = isLoaded w
          \<and> error w' = Some LOAD_FAILED_MESSAGE \<and> initialisations (new_events w w') = [])"
  by (auto simp add: load_defs ready_def monad_defs new_events_def split: sum.splits prod.splits option.splits if_splits)

subsection \<open>convertToGif, by the step that ends it\<close>

lemma ensure_loaded_eq: "ensure_loaded env w = loadFFmpeg env w"
  by (simp add: ensure_loaded_def loadFFmpeg_def)

lemma new_events_same_trace:
  "trace a = trace b \<Longrightarrow> new_events a w = new_events b w"
  "trace a = trace b \<Longrightarrow> new_events w a = new_events w b"
  by (simp_all add: new_events_def)

lemma trace_wrappers [simp]:
  "trace (convert_prologue w) = trace w"
  "trace (convert_finally w) = trace w"
  "trace (w\<lparr>error := x\<rparr>) = trace w"
  by (simp_all add: convert_prologue_def convert_finally_def)

lemma new_events_wrappers [simp]:
  "new_events (convert_prologue w) x = new_events w x"
  "new_events w (convert_finally x) = new_events w x"
  "new_events w (convert_prologue x) = new_events w x"
  "new_events w (x\<lparr>error := m\<rparr>) = new_events w x"
  by (simp_all add: new_events_def)

lemma convertToGif_cases:
  assumes "convertToGif env file options w = (r, w')"
  obtains
    (invalid) e where "validateFile file = Inl e" "r = Inl e"
      "w' = convert_finally ((convert_prologue w)\<lparr>error := Some (error_message e)\<rparr>)"
  | (load_failed) e w1 where "validateFile file = Inr ()"
      "loadFFmpeg env (convert_prologue w) = (Inl e, w1)" "r = Inl e"
      "w' = convert_finally (w1\<lparr>error := Some (error_message e)\<rparr>)"
  | (engine_failed) e w1 w2 where "validateFile file = Inr ()"
      "loadFFmpeg env (convert_prologue w) = (Inr (), w1)"
      "convert_engine env file (derive_params options) w1 = (Inl e, w2)" "r = Inl e"
      "w' = convert_finally (w2\<lparr>error := Some (error_message e)\<rparr>)"
  | (converted) res w1 w2 where "validateFile file = Inr ()"
      "loadFFmpeg env (convert_prologue w) = (Inr (), w1)"
      "convert_engine env file (derive_params options) w1 = (Inr res, w2)" "r = Inr res"
      "w' = convert_finally w2"
  using assms
  by (auto simp add: convertToGif_def convert_try_def convert_catch_def ensure_loaded_eq
      try_finally_def try_catch_def seq_def split: sum.splits prod.splits)

lemma prologue_refs [simp]:
  "ffmpeg (convert_prologue w) = ffmpeg w" "isLoaded (convert_prologue w) = isLoaded w"
  "progress (convert_prologue w) = 0" "isConverting (convert_prologue w)"
  "error (convert_prologue w) = None"
  "result (convert_prologue w) = result w" "selectedFile (convert_prologue w) = selectedFile w"
  "selectedQuality (convert_prologue w) = selectedQuality w" "toast (convert_prologue w) = toast w"
  "isDragOver (convert_prologue w) = isDragOver w" "isLoading (convert_prologue w) = isLoading w"
  "next_url (convert_prologue w) = next_url w" "next_instance (convert_prologue w) = next_instance w"
  "ready (convert_prologue w) = ready w"
  by (simp_all add: convert_prologue_def ready_def)

lemma finally_refs [simp]:
  "ffmpeg (convert_finally w) = ffmpeg w" "isLoaded (convert_finally w) = isLoaded w"
  "progress (convert_finally w) = 0" "\<not> isConverting (convert_finally w)"
  "error (convert_finally w) = error w"
  "result (convert_finally w) = result w" "selectedFile (convert_finally w) = selectedFile w"
  "selectedQuality (convert_finally w) = selectedQuality w" "toast (convert_finally w) = toast w"
  "isDragOver (convert_finally w) = isDragOver w" "isLoading (convert_finally w) = isLoading w"
  "next_url (convert_finally w) = next_url w" "next_instance (convert_finally w) = next_instance w"
  "ready (convert_finally w) = ready w"
  by (simp_all add: convert_finally_def ready_def)

lemma ready_error [simp]: "ready (w\<lparr>error := m\<rparr>) = ready w"
  by (simp add: ready_def)

lemma convertToGif_refs:
  assumes "convertToGif env file options w = (r, w')"
  shows "progress w' = 0 \<and> \<not> isConverting w'
   \<and> result w' = result w \<and> selectedFile w' = selectedFile w
   \<and> selectedQuality w' = selectedQuality w \<and> toast w' = toast w \<and> isDragOver w' = isDragOver w
   \<and> next_instance w \<le> next_instance w' \<and> next_url w \<le> next_url w'"
  using assms
proof (cases rule: convertToGif_cases)
  case (invalid e)
  then show ?thesis by simp
next
  case (load_failed e w1)
  then show ?thesis using loadFFmpeg_refs [OF load_failed(2)] by simp
next
  case (engine_failed e w1 w2)
  then show ?thesis
    using loadFFmpeg_refs [OF engine_failed(2)] convert_engine_refs [OF engine_failed(3)] by simp
next
  case (converted res w1 w2)
  then show ?thesis
    using loadFFmpeg_refs [OF converted(2)] convert_engine_refs [OF converted(3)] by simp
qed

lemma convertToGif_trace:
  assumes "convertToGif env file options w = (r, w')"
  shows "trace w' = trace w @ new_events w w'
   \<and> revoked (new_events w w') = []
   \<and> set (written (new_events w w')) \<subseteq> {inputName file}
   \<and> (case new_events w w' of [] \<Rightarrow> True | (ev, ok, s) # _ \<Rightarrow> progress s = 0 \<and> isConverting s)"
  using assms
proof (cases rule: convertToGif_cases)
  case (invalid e)
  then show ?thesis by (simp add: new_events_refl)
next
  case (load_failed e w1)
  note L = loadFFmpeg_trace [OF load_failed(2)]
  show ?thesis
  proof (cases "ready w")
    case True
    then show ?thesis using load_failed loadFFmpeg_ready [of "convert_prologue w" env] by simp
  next
    case False
    then show ?thesis
      using load_failed L loadFFmpeg_not_ready [OF _ load_failed(2)]
      by (auto split: list.splits)
  qed
next
  case (engine_failed e w1 w2)
  note L = loadFFmpeg_trace [OF engine_failed(2)]
  note E = convert_engine_trace [OF engine_failed(3)]
  note R = loadFFmpeg_refs [OF engine_failed(2)]
  have T: "trace w2 = trace (convert_prologue w) @ new_events (convert_prologue w) w2
      \<and> new_events (convert_prologue w) w2 = new_events (convert_prologue w) w1 @ new_events w1 w2"
    using new_events_trans L E by blast
  show ?thesis
  proof (cases "ready w")
    case True
    then have "w1 = convert_prologue w"
      using engine_failed(2) loadFFmpeg_ready [of "convert_prologue w" env] by simp
    then show ?thesis using engine_failed E by (auto split: list.splits)
  next
    case False
    then show ?thesis
      using engine_failed L E T loadFFmpeg_not_ready [OF _ engine_failed(2)]
      by (auto simp: revoked_append written_append split: list.splits)
  qed
next
  case (converted res w1 w2)
  note L = loadFFmpeg_trace [OF converted(2)]
  note E = convert_engine_trace [OF converted(3)]
  have T: "trace w2 = trace (convert_prologue w) @ new_events (convert_prologue w) w2
      \<and> new_events (convert_prologue w) w2 = new_events (convert_prologue w) w1 @ new_events w1 w2"
    using new_events_trans L E by blast
  show ?thesis
  proof (cases "ready w")
    case True
    then have "w1 = convert_prologue w"
      using converted(2) loadFFmpeg_ready [of "convert_prologue w" env] by simp
    then show ?thesis using converted E by (auto split: list.splits)
  next
    case False
    then show ?thesis
      using converted L E T loadFFmpeg_not_ready [OF _ converted(2)]
      by (auto simp: revoked_append written_append split: list.splits)
  qed
qed

lemma convertToGif_engine:
  assumes "convertToGif env file options w = (r, w')"
  shows "(ready w \<longrightarrow> ffmpeg w' = ffmpeg w \<and> isLoaded w' \<and> isLoading w' = isLoading w
            \<and> next_instance w' = next_instance w
            \<and> initialisations (new_events w w') = []
            \<and> list_all (\<lambda>(ev, ok, s). \<not> engine_init_event ev
                 \<and> (event_instance ev = None \<or> event_instance ev = ffmpeg w)) (new_events w w'))
   \<and> (\<not> ready w \<longrightarrow> (if ready w' then length (initialisations (new_events w w')) = 1
                         else initialisations (new_events w w') = []))"
  using assms
proof (cases rule: convertToGif_cases)
  case (invalid e)
  then show ?thesis by (simp add: new_events_refl ready_def)
next
  case (load_failed e w1)
  show ?thesis
  proof (cases "ready w")
    case True
    then show ?thesis using load_failed loadFFmpeg_ready [of "convert_prologue w" env] by simp
  next
    case False
    then show ?thesis
      using load_failed loadFFmpeg_not_ready [OF _ load_failed(2)]
      by (auto simp: ready_def)
  qed
next
  case (engine_failed e w1 w2)
  note L = loadFFmpeg_trace [OF engine_failed(2)]
  note E = convert_engine_trace [OF engine_failed(3)]
  note R = convert_engine_refs [OF engine_failed(3)]
  have T: "new_events (convert_prologue w) w2 = new_events (convert_prologue w) w1 @ new_events w1 w2"
    using new_events_trans L E by blast
  show ?thesis
  proof (cases "ready w")
    case True
    then have "w1 = convert_prologue w"
      using engine_failed(2) loadFFmpeg_ready [of "convert_prologue w" env] by simp
    then show ?thesis using True engine_failed E R by (auto simp: ready_def)
  next
    case False
    then show ?thesis
      using engine_failed E R T loadFFmpeg_not_ready [OF _ engine_failed(2)]
      by (auto simp: ready_def initialisations_append)
  qed
next
  case (converted res w1 w2)
  note L = loadFFmpeg_trace [OF converted(2)]
  note E = convert_engine_trace [OF converted(3)]
  note R = convert_engine_refs [OF converted(3)]
  have T: "new_events (convert_prologue w) w2 = new_events (convert_prologue w) w1 @ new_events w1 w2"
    using new_events_trans L E by blast
  show ?thesis
  proof (cases "ready w")
    case True
    then have "w1 = convert_prologue w"
      using converted(2) loadFFmpeg_ready [of "convert_prologue w" env] by simp
    then show ?thesis using True converted E R by (auto simp: ready_def)
  next
    case False
    then show ?thesis
      using converted E R T loadFFmpeg_not_ready [OF _ converted(2)]
      by (auto simp: ready_def initialisations_append)
  qed
qed

lemma convertToGif_success:
  assumes "convertToGif env file options w = (Inr res, w')"
  shows "url res = next_url w \<and> next_url w' = Suc (next_url w)
   \<and> (\<exists>i. ffmpeg w' = Some i
        \<and> commands (new_events w w') = [(i, exec_args (env_toString env) file (derive_params options))])
   \<and> written (new_events w w') = [inputName file]
   \<and> validateFile file = Inr () \<and> ready w' \<and> error w' = None
   \<and> env_readFile env outputName = Inr (blob res) \<and> size_r res = length (blob res)"
  using assms
proof (cases rule: convertToGif_cases)
  case (converted res' w1 w2)
  note L = loadFFmpeg_trace [OF converted(2)]
  note LR = loadFFmpeg_refs [OF converted(2)]
  note E = convert_engine_trace [OF converted(3)]
  note R = convert_engine_refs [OF converted(3)]
  note S = convert_engine_success [OF converted(3)]
  have T: "new_events (convert_prologue w) w2 = new_events (convert_prologue w) w1 @ new_events w1 w2"
    using new_events_trans L E by blast
  have res: "res' = res" using converted by simp
  have loaded: "isLoaded w1 \<and> error w1 = None"
  proof (cases "ready w")
    case True
    then have "w1 = convert_prologue w"
      using converted(2) loadFFmpeg_ready [of "convert_prologue w" env] by simp
    then show ?thesis using True by (simp add: ready_def)
  next
    case False
    then show ?thesis using loadFFmpeg_not_ready [OF _ converted(2)] by simp
  qed
  have ne: "new_events w w2 = new_events w w1 @ new_events w1 w2"
    using T by simp
  have u: "url res = next_url w \<and> next_url w' = Suc (next_url w)"
    using S LR converted(5) res by simp
  obtain i where i: "ffmpeg w1 = Some i"
      "commands (new_events w1 w2) = [(i, exec_args (env_toString env) file (derive_params options))]"
    using S by blast
  have c: "ffmpeg w' = Some i
      \<and> commands (new_events w w') = [(i, exec_args (env_toString env) file (derive_params options))]"
    using i R L converted(5) by (simp add: ne commands_append)
  have wr: "written (new_events w w') = [inputName file]"
    using S L converted(5) by (simp add: ne written_append)
  have rd: "ready w' \<and> error w' = None"
    using loaded R i converted(5) by (simp add: ready_def)
  have bl: "env_readFile env outputName = Inr (blob res) \<and> size_r res = length (blob res)"
    using S res by simp
  show ?thesis
    using u c wr rd bl converted(1) by blast
qed simp_all

lemma convertToGif_failure:
  assumes "convertToGif env file options w = (Inl e, w')"
  shows "error w' = Some (error_message e)"
  using assms
  by (cases rule: convertToGif_cases) simp_all

lemma convertToGif_invalid:
  assumes "validateFile file = Inl e"
  shows "fst (convertToGif env file options w) = Inl e
     \<and> new_events w (snd (convertToGif env file options w)) = []"
proof -
  obtain r w' where c: "convertToGif env file options w = (r, w')"
    by (cases "convertToGif env file options w")
  then show ?thesis using assms
    by (cases rule: convertToGif_cases) (simp_all add: c new_events_refl)
qed

lemma convertToGif_load_failure:
  assumes "validateFile file = Inr ()" "loadFFmpeg env (convert_prologue w) = (Inl e, w1)"
  shows "fst (convertToGif env file options w) = Inl e"
proof -
  obtain r w' where c: "convertToGif env file options w = (r, w')"
    by (cases "convertToGif env file options w")
  then show ?thesis using assms
    by (cases rule: convertToGif_cases) (simp_all add: c)
qed

lemma convertToGif_exec_failure:
  assumes "validateFile file = Inr ()" "ready w"
    "env_import env ''@ffmpeg/util'' = Inr ()" "env_fetchFile env file = Inr d"
    "env_writeFile env (inputName file) = Inr ()"
    "snd (env_exec env (exec_args (env_toString env) file (derive_params options))) = Inl e"
  shows "fst (convertToGif env file options w) = Inl e"
proof -
  obtain r w' where c: "convertToGif env file options w = (r, w')"
    by (cases "convertToGif env file options w")
  have L: "loadFFmpeg env (convert_prologue w) = (Inr (), convert_prologue w)"
    using assms(2) loadFFmpeg_ready by simp
  obtain i where i: "ffmpeg (convert_prologue w) = Some i"
    using assms(2) by (auto simp: ready_def)
  have E: "fst (convert_engine env file (derive_params options) (convert_prologue w)) = Inl e"
    using convert_engine_exec_fails [OF i assms(3,4,5,6)] .
  from c show ?thesis using assms(1) L E
    by (cases rule: convertToGif_cases) (auto simp: c)
qed

section \<open>The engine command\<close>

lemmas eval_defs = convertToGif_def convert_try_def convert_engine_def ensure_loaded_def
  convert_catch_def convert_finally_def convert_prologue_def exec_def createObjectURL_def
  member_of_instance_def loadFFmpeg_def load_try_def load_catch_def load_finally_def
  new_FFmpeg_def seq_def call_def emit_def try_catch_def try_finally_def on_progress_def
  new_events_def init_def engine_ok_def exec_fails_def fetch_fails_def sample_file_def
  medium_options_def validateFile_def SUPPORTED_FORMATS_def MAX_FILE_SIZE_def

lemmas string_defs = number_to_string_def is_safe_integer_def MAX_SAFE_INTEGER_def
  js_string_of_def digits.simps digit_char_def

lemma sample_conversion:
  "fst (convertToGif engine_ok sample_file medium_options init)
     = Inr \<lparr>blob = [71, 73, 70, 56, 57, 97], url = 0, size_r = 6\<rparr>"
  by (simp add: eval_defs)

lemma medium_filter:
  "filter_expr other (derive_params \<lparr>opt_fps = None, opt_quality = Some Medium, opt_loop = l\<rparr>)
     = ''fps=12,scale=480:-1:flags=lanczos,split[s0][s1];[s0]palettegen=max_colors=128[p];[s1][p]paletteuse=dither=floyd_steinberg''"
  by (simp add: filter_expr_def derive_params_def string_defs)

lemma medium_contains:
  "sublist ''fps=12'' ''fps=12,scale=480:-1:flags=lanczos,split[s0][s1];[s0]palettegen=max_colors=128[p];[s1][p]paletteuse=dither=floyd_steinberg''"
  "sublist ''scale=480:-1'' ''fps=12,scale=480:-1:flags=lanczos,split[s0][s1];[s0]palettegen=max_colors=128[p];[s1][p]paletteuse=dither=floyd_steinberg''"
  "sublist ''max_colors=128'' ''fps=12,scale=480:-1:flags=lanczos,split[s0][s1];[s0]palettegen=max_colors=128[p];[s1][p]paletteuse=dither=floyd_steinberg''"
  by (simp_all add: sublist_Cons_right)

text \<open>
  Claim C2. A conversion that succeeds gives the engine exactly one command. Its filter
  expression has two stages: the first resamples to the derived frame rate, scales to the
  derived width with height -1 and splits into two branches; the second generates a
  palette of at most the derived number of colours on one branch and applies it with
  Floyd-Steinberg dithering on the other. For the medium preset with no override the
  expression contains fps=12, scale=480:-1 and max_colors=128.
\<close>

theorem single_engine_command:
  assumes "convertToGif env file options w = (Inr res, w')"
  shows "(\<exists>i. ffmpeg w' = Some i
           \<and> commands (new_events w w')
               = [(i, [''-i'', inputName file, ''-vf'', filter_expr (env_toString env) (derive_params options),
                       ''-loop'', number_to_string (env_toString env) (p_loop (derive_params options)), ''output.gif''])])
     \<and> filter_expr (env_toString env) (derive_params options)
         = spec_stage1 (env_toString env) (p_fps (derive_params options)) (p_width (derive_params options))
           @ '';'' @ spec_stage2 (p_colors (derive_params options))
     \<and> (opt_fps options = None \<and> opt_quality options = Some Medium \<longrightarrow>
          sublist ''fps=12'' (filter_expr (env_toString env) (derive_params options))
          \<and> sublist ''scale=480:-1'' (filter_expr (env_toString env) (derive_params options))
          \<and> sublist ''max_colors=128'' (filter_expr (env_toString env) (derive_params options)))"
proof -
  have "\<exists>i. ffmpeg w' = Some i
      \<and> commands (new_events w w') = [(i, exec_args (env_toString env) file (derive_params options))]"
    using convertToGif_success [OF assms] by blast
  then have one: "\<exists>i. ffmpeg w' = Some i
           \<and> commands (new_events w w')
               = [(i, [''-i'', inputName file, ''-vf'', filter_expr (env_toString env) (derive_params options),
                       ''-loop'', number_to_string (env_toString env) (p_loop (derive_params options)), ''output.gif''])]"
    by (simp add: exec_args_def outputName_def)
  have stages: "filter_expr (env_toString env) (derive_params options)
         = spec_stage1 (env_toString env) (p_fps (derive_params options)) (p_width (derive_params options))
           @ '';'' @ spec_stage2 (p_colors (derive_params options))"
    by (simp add: filter_expr_def spec_stage1_def spec_stage2_def)
  have medium: "sublist ''fps=12'' (filter_expr (env_toString env) (derive_params options))
          \<and> sublist ''scale=480:-1'' (filter_expr (env_toString env) (derive_params options))
          \<and> sublist ''max_colors=128'' (filter_expr (env_toString env) (derive_params options))"
    if "opt_fps options = None" "opt_quality options = Some Medium"
  proof -
    have "options = \<lparr>opt_fps = None, opt_quality = Some Medium, opt_loop = opt_loop options\<rparr>"
      using that by (cases options) simp
    then have "filter_expr (env_toString env) (derive_params options)
      = ''fps=12,scale=480:-1:flags=lanczos,split[s0][s1];[s0]palettegen=max_colors=128[p];[s1][p]paletteuse=dither=floyd_steinberg''"
      using medium_filter [of "env_toString env" "opt_loop options"] by simp
    then show ?thesis using medium_contains by simp
  qed
  show ?thesis using one stages medium by blast
qed

theorem single_engine_command_witness:
  "fst (convertToGif engine_ok sample_file medium_options init)
     = Inr \<lparr>blob = [71, 73, 70, 56, 57, 97], url = 0, size_r = 6\<rparr>
   \<and> commands (new_events init (snd (convertToGif engine_ok sample_file medium_options init)))
       = [(0, [''-i'', ''input.mp4'', ''-vf'',
               ''fps=12,scale=480:-1:flags=lanczos,split[s0][s1];[s0]palettegen=max_colors=128[p];[s1][p]paletteuse=dither=floyd_steinberg'',
               ''-loop'', ''0'', ''output.gif''])]
   \<and> sublist ''max_colors=128'' (filter_expr (env_toString engine_ok) (derive_params medium_options))"
proof -
  have c: "convertToGif engine_ok sample_file medium_options init
      = (Inr \<lparr>blob = [71, 73, 70, 56, 57, 97], url = 0, size_r = 6\<rparr>,
         snd (convertToGif engine_ok sample_file medium_options init))"
    using sample_conversion by (metis prod.collapse)
  have n: "inputName sample_file = ''input.mp4''"
    by (simp add: inputName_def inputExt_def pop_def sample_file_def)
  have m: "filter_expr (env_toString engine_ok) (derive_params medium_options)
      = ''fps=12,scale=480:-1:flags=lanczos,split[s0][s1];[s0]palettegen=max_colors=128[p];[s1][p]paletteuse=dither=floyd_steinberg''"
    using medium_filter by (simp add: medium_options_def)
  have i: "ffmpeg (snd (convertToGif engine_ok sample_file medium_options init)) = Some 0"
    by (simp add: eval_defs)
  have l: "number_to_string (env_toString engine_ok) (p_loop (derive_params medium_options)) = ''0''"
    by (simp add: derive_params_def medium_options_def string_defs)
  have o: "opt_fps medium_options = None \<and> opt_quality medium_options = Some Medium"
    by (simp add: medium_options_def)
  note T = single_engine_command [OF c]
  from T obtain j where j:
    "ffmpeg (snd (convertToGif engine_ok sample_file medium_options init)) = Some j"
    "commands (new_events init (snd (convertToGif engine_ok sample_file medium_options init)))
       = [(j, [''-i'', inputName sample_file, ''-vf'', filter_expr (env_toString engine_ok) (derive_params medium_options),
               ''-loop'', number_to_string (env_toString engine_ok) (p_loop (derive_params medium_options)), ''output.gif''])]"
    by blast
  have j0: "j = 0" using i j(1) by simp
  have s: "sublist ''max_colors=128'' (filter_expr (env_toString engine_ok) (derive_params medium_options))"
    using T o by blast
  show ?thesis
    using sample_conversion j(2) j0 s by (simp add: n m l)
qed

section \<open>The frame-rate override\<close>

lemma convert_engine_commands:
  assumes "convert_engine env file ps w = (r, w')"
  shows "snd ` set (commands (new_events w w')) \<subseteq> {exec_args (env_toString env) file ps}"
proof -
  have "set (commands (new_events w w'))
      \<subseteq> {(i, exec_args (env_toString env) file ps) | i. ffmpeg w = Some i}"
    using convert_engine_trace [OF assms] by simp
  then show ?thesis by auto
qed

lemma convertToGif_commands:
  assumes "convertToGif env file options w = (r, w')"
  shows "snd ` set (commands (new_events w w'))
           \<subseteq> {exec_args (env_toString env) file (derive_params options)}"
  using assms
proof (cases rule: convertToGif_cases)
  case (invalid e)
  then show ?thesis by (simp add: new_events_refl)
next
  case (load_failed e w1)
  have "commands (new_events w w1) = []"
    using loadFFmpeg_trace [OF load_failed(2)] by simp
  then show ?thesis using load_failed(4) by simp
next
  case (engine_failed e w1 w2)
  have l: "commands (new_events w w1) = []"
    using loadFFmpeg_trace [OF engine_failed(2)] by simp
  note L = loadFFmpeg_trace [OF engine_failed(2)]
  note E = convert_engine_trace [OF engine_failed(3)]
  have "new_events (convert_prologue w) w2
      = new_events (convert_prologue w) w1 @ new_events w1 w2"
    using new_events_trans L E by blast
  then have n: "new_events w w2 = new_events w w1 @ new_events w1 w2"
    by simp
  show ?thesis
    using convert_engine_commands [OF engine_failed(3)] engine_failed(5)
    by (simp add: n l commands_append)
next
  case (converted res w1 w2)
  have l: "commands (new_events w w1) = []"
    using loadFFmpeg_trace [OF converted(2)] by simp
  note L = loadFFmpeg_trace [OF converted(2)]
  note E = convert_engine_trace [OF converted(3)]
  have "new_events (convert_prologue w) w2
      = new_events (convert_prologue w) w1 @ new_events w1 w2"
    using new_events_trans L E by blast
  then have n: "new_events w w2 = new_events w w1 @ new_events w1 w2"
    by simp
  show ?thesis
    using convert_engine_commands [OF converted(3)] converted(5)
    by (simp add: n l commands_append)
qed

text \<open>
  Claim C5. A frame-rate override given in the options is the derived frame rate,
  whatever the preset and whatever number it is (0, a fraction, NaN and the infinities
  included): it is the rate that opens the filter expression, and every command that
  convertToGif gives the engine is built from it.
\<close>

theorem fps_override:
  "p_fps (derive_params (options\<lparr>opt_fps := Some v\<rparr>)) = v
   \<and> p_fps (derive_params (options\<lparr>opt_fps := Some (Num 0)\<rparr>)) = Num 0
   \<and> prefix (''fps='' @ number_to_string other v @ '',scale='')
        (filter_expr other (derive_params (options\<lparr>opt_fps := Some v\<rparr>)))
   \<and> prefix ''fps=0,scale=''
        (filter_expr other (derive_params (options\<lparr>opt_fps := Some (Num 0)\<rparr>)))
   \<and> snd ` set (commands (new_events w (snd (convertToGif env f
          (options\<lparr>opt_fps := Some v\<rparr>) w))))
       \<subseteq> {exec_args (env_toString env) f (derive_params (options\<lparr>opt_fps := Some v\<rparr>))}"
proof -
  have "p_fps (derive_params (options\<lparr>opt_fps := Some v\<rparr>)) = v
      \<and> p_fps (derive_params (options\<lparr>opt_fps := Some (Num 0)\<rparr>)) = Num 0"
    by (simp add: derive_params_def Let_def)
  moreover have "prefix (''fps='' @ number_to_string other v @ '',scale='')
        (filter_expr other (derive_params (options\<lparr>opt_fps := Some v\<rparr>)))"
    by (simp add: derive_params_def filter_expr_def Let_def)
  moreover have "prefix ''fps=0,scale=''
        (filter_expr other (derive_params (options\<lparr>opt_fps := Some (Num 0)\<rparr>)))"
    by (simp add: derive_params_def filter_expr_def Let_def string_defs)
  ultimately show ?thesis
    using convertToGif_commands [OF surjective_pairing] by blast
qed

theorem fps_override_witness:
  "commands (new_events init (snd (convertToGif engine_ok sample_file
       (medium_options\<lparr>opt_fps := Some (Num (2997 / 100))\<rparr>) init)))
     = [(0, [''-i'', ''input.mp4'', ''-vf'',
             ''fps=29.97,scale=480:-1:flags=lanczos,split[s0][s1];[s0]palettegen=max_colors=128[p];[s1][p]paletteuse=dither=floyd_steinberg'',
             ''-loop'', ''0'', ''output.gif''])]
   \<and> p_fps (derive_params (medium_options\<lparr>opt_fps := Some (Num 0)\<rparr>)) = Num 0
   \<and> p_fps (derive_params (medium_options\<lparr>opt_fps := Some NaN\<rparr>)) = NaN
   \<and> prefix ''fps=NaN,scale=''
        (filter_expr (env_toString engine_ok) (derive_params (medium_options\<lparr>opt_fps := Some NaN\<rparr>)))"
proof -
  let ?o = "medium_options\<lparr>opt_fps := Some (Num (2997 / 100))\<rparr>"
  have "commands (new_events init (snd (convertToGif engine_ok sample_file ?o init)))
      = [(0, exec_args (env_toString engine_ok) sample_file (derive_params ?o))]"
    by (simp add: eval_defs)
  moreover have "exec_args (env_toString engine_ok) sample_file (derive_params ?o)
      = [''-i'', ''input.mp4'', ''-vf'',
         ''fps=29.97,scale=480:-1:flags=lanczos,split[s0][s1];[s0]palettegen=max_colors=128[p];[s1][p]paletteuse=dither=floyd_steinberg'',
         ''-loop'', ''0'', ''output.gif'']"
    by (simp add: exec_args_def filter_expr_def derive_params_def string_defs inputName_def
        inputExt_def pop_def sample_file_def outputName_def medium_options_def engine_ok_def)
  moreover have "number_to_string (env_toString engine_ok) NaN = ''NaN''"
    by (simp add: number_to_string_def)
  ultimately show ?thesis
    using fps_override [where options = medium_options and v = "Num (2997 / 100)"
            and w = init and env = engine_ok and f = sample_file]
      fps_override [where options = medium_options and v = NaN
            and other = "env_toString engine_ok"]
    by simp
qed

section \<open>Progress\<close>

text \<open>
  Claim C6. Whatever the outcome of a call of convertToGif (success, validation failure,
  engine-load failure, transcode failure), progress is 0 when the conversion work starts,
  that is after the three assignments that precede the try block and at the first
  external call, if there is one, and it is 0 when the call has finished.
\<close>

theorem progress_reset:
  "progress (convert_prologue w) = 0
   \<and> progress (snd (convertToGif env file options w)) = 0
   \<and> (case new_events w (snd (convertToGif env file options w)) of
        [] \<Rightarrow> True
      | (ev, returned, at_call) # _ \<Rightarrow> progress at_call = 0 \<and> isConverting at_call)"
proof -
  have c: "convertToGif env file options w
      = (fst (convertToGif env file options w), snd (convertToGif env file options w))"
    by simp
  show ?thesis
    using convertToGif_refs [OF c] convertToGif_trace [OF c]
    by simp
qed

theorem progress_reset_witness:
  "progress (snd (convertToGif engine_ok sample_file medium_options init)) = 0
   \<and> progress (snd (convertToGif exec_fails sample_file medium_options init)) = 0
   \<and> new_events init (snd (convertToGif exec_fails sample_file medium_options init)) \<noteq> []
   \<and> progress (snd (snd (hd (new_events init
         (snd (convertToGif exec_fails sample_file medium_options init)))))) = 0"
proof -
  have n: "new_events init (snd (convertToGif exec_fails sample_file medium_options init)) \<noteq> []"
    by (simp add: eval_defs)
  show ?thesis
    using progress_reset [of init engine_ok sample_file medium_options]
      progress_reset [of init exec_fails sample_file medium_options] n
    by (auto split: list.splits)
qed

section \<open>Failures\<close>

lemma handleConvert_failure:
  assumes "selectedFile w = Some file"
    "convertToGif env file
       \<lparr>opt_fps = None, opt_quality = Some (selectedQuality w), opt_loop = None\<rparr> w = (Inl e, w')"
  shows "handleConvert env w
     = showToast (or_default (Some (error_message e)) CONVERT_FAILED_MESSAGE) error_toast w'"
  using assms convertToGif_failure [OF assms(2)]
  by (simp add: handleConvert_def)

lemmas eval_more = eval_defs warm_def oversized_file_def ready_def

lemma warm_ready: "ready warm \<and> ffmpeg warm = Some 0"
  by (simp add: eval_more)

text \<open>
  Claim C8. A call of convertToGif that fails rethrows what was thrown, leaves a message
  string in the error state (the message of an Error, a fixed text for any other value),
  and returns no result: the caller's result slot is left as it was. A validation failure
  ends the call before any external call; a failure of loadFFmpeg and a failure of the
  engine command end it with what they threw.
\<close>

theorem failure_reported:
  "(convertToGif env file options w = (Inl e, w') \<longrightarrow>
      error w' = Some (error_message e) \<and> \<not> isConverting w' \<and> progress w' = 0
      \<and> result w' = result w)
   \<and> error_message e = (case e of Error m \<Rightarrow> m | Thrown_Value v \<Rightarrow> UNKNOWN_ERROR_MESSAGE)
   \<and> (validateFile file = Inl e \<longrightarrow>
        fst (convertToGif env file options w) = Inl e
        \<and> new_events w (snd (convertToGif env file options w)) = [])
   \<and> (validateFile file = Inr () \<and> fst (loadFFmpeg env (convert_prologue w)) = Inl e \<longrightarrow>
        fst (convertToGif env file options w) = Inl e)
   \<and> (validateFile file = Inr () \<and> ready w \<and> env_import env ''@ffmpeg/util'' = Inr ()
        \<and> env_fetchFile env file = Inr d \<and> env_writeFile env (inputName file) = Inr ()
        \<and> snd (env_exec env (exec_args (env_toString env) file (derive_params options))) = Inl e \<longrightarrow>
        fst (convertToGif env file options w) = Inl e)
   \<and> (selectedFile w = Some file
        \<and> fst (convertToGif env file
                 \<lparr>opt_fps = None, opt_quality = Some (selectedQuality w), opt_loop = None\<rparr> w)
            = Inl e \<longrightarrow>
        result (handleConvert env w) = result w
        \<and> toast (handleConvert env w)
            = Some (or_default (Some (error_message e)) CONVERT_FAILED_MESSAGE, error_toast))"
proof -
  have a: "error w' = Some (error_message e) \<and> \<not> isConverting w' \<and> progress w' = 0
      \<and> result w' = result w"
    if "convertToGif env file options w = (Inl e, w')"
    using convertToGif_failure [OF that] convertToGif_refs [OF that] by simp
  have b: "error_message e = (case e of Error m \<Rightarrow> m | Thrown_Value v \<Rightarrow> UNKNOWN_ERROR_MESSAGE)"
    by (simp add: error_message_def)
  have c: "fst (convertToGif env file options w) = Inl e
        \<and> new_events w (snd (convertToGif env file options w)) = []"
    if "validateFile file = Inl e"
    using convertToGif_invalid [OF that] by simp
  have d: "fst (convertToGif env file options w) = Inl e"
    if "validateFile file = Inr ()" "fst (loadFFmpeg env (convert_prologue w)) = Inl e"
  proof -
    have "loadFFmpeg env (convert_prologue w) = (Inl e, snd (loadFFmpeg env (convert_prologue w)))"
      using that(2) by (metis prod.collapse)
    then show ?thesis using convertToGif_load_failure [OF that(1)] by simp
  qed
  have f: "fst (convertToGif env file options w) = Inl e"
    if "validateFile file = Inr ()" "ready w" "env_import env ''@ffmpeg/util'' = Inr ()"
       "env_fetchFile env file = Inr d" "env_writeFile env (inputName file) = Inr ()"
       "snd (env_exec env (exec_args (env_toString env) file (derive_params options))) = Inl e"
    using convertToGif_exec_failure [OF that] .
  have g: "result (handleConvert env w) = result w
        \<and> toast (handleConvert env w)
            = Some (or_default (Some (error_message e)) CONVERT_FAILED_MESSAGE, error_toast)"
    if "selectedFile w = Some file"
       "fst (convertToGif env file
                 \<lparr>opt_fps = None, opt_quality = Some (selectedQuality w), opt_loop = None\<rparr> w)
            = Inl e"
  proof -
    let ?o = "\<lparr>opt_fps = None, opt_quality = Some (selectedQuality w), opt_loop = None\<rparr>"
    have c: "convertToGif env file ?o w = (Inl e, snd (convertToGif env file ?o w))"
      using that(2) by (metis prod.collapse)
    show ?thesis
      using handleConvert_failure [OF that(1) c] convertToGif_refs [OF c]
      by (simp add: showToast_def)
  qed
  show ?thesis using a b c d f g by blast
qed

theorem failure_reported_witness:
  "error (snd (convertToGif exec_fails sample_file medium_options init)) = Some ''aborted''
   \<and> fst (convertToGif engine_ok oversized_file medium_options init) = Inl FileTooLargeError
   \<and> fst (convertToGif fetch_fails sample_file medium_options init) = Inl (Thrown_Value 0)
   \<and> fst (convertToGif exec_fails sample_file medium_options warm) = Inl (Error ''aborted'')
   \<and> result (handleConvert exec_fails (selectFile sample_file init)) = None
   \<and> toast (handleConvert exec_fails (selectFile sample_file init))
       = Some (''aborted'', error_toast)"
proof -
  let ?E = "Error ''aborted''"
  have 1: "convertToGif exec_fails sample_file medium_options init
      = (Inl ?E, snd (convertToGif exec_fails sample_file medium_options init))"
  proof -
    have "fst (convertToGif exec_fails sample_file medium_options init) = Inl ?E"
      by (simp add: eval_more)
    then show ?thesis by (metis prod.collapse)
  qed
  have 2: "validateFile oversized_file = Inl FileTooLargeError"
    by (simp add: validateFile_def oversized_file_def SUPPORTED_FORMATS_def MAX_FILE_SIZE_def)
  have 3: "validateFile sample_file = Inr ()
      \<and> fst (loadFFmpeg fetch_fails (convert_prologue init)) = Inl (Thrown_Value 0)"
    by (simp add: eval_more)
  have 4: "validateFile sample_file = Inr () \<and> ready warm
      \<and> env_import exec_fails ''@ffmpeg/util'' = Inr ()
      \<and> env_fetchFile exec_fails sample_file = Inr [0, 0, 0, 24]
      \<and> env_writeFile exec_fails (inputName sample_file) = Inr ()
      \<and> snd (env_exec exec_fails (exec_args (env_toString exec_fails) sample_file (derive_params medium_options))) = Inl ?E"
    using warm_ready
    by (simp add: validateFile_def sample_file_def SUPPORTED_FORMATS_def MAX_FILE_SIZE_def
        exec_fails_def engine_ok_def)
  let ?w = "selectFile sample_file init"
  have 5: "selectedFile ?w = Some sample_file
      \<and> fst (convertToGif exec_fails sample_file
               \<lparr>opt_fps = None, opt_quality = Some (selectedQuality ?w), opt_loop = None\<rparr> ?w)
          = Inl ?E"
    by (simp add: eval_more selectFile_def)
  have 6: "result ?w = None"
    by (simp add: selectFile_def init_def)
  have 7: "error_message ?E = ''aborted''"
    by (simp add: error_message_def)
  show ?thesis
    using failure_reported [of exec_fails sample_file medium_options init ?E
            "snd (convertToGif exec_fails sample_file medium_options init)"] 1
      failure_reported [of engine_ok oversized_file medium_options init FileTooLargeError] 2
      failure_reported [of fetch_fails sample_file medium_options init "Thrown_Value 0"] 3
      failure_reported [of exec_fails sample_file medium_options warm ?E _ "[0, 0, 0, 24]"] 4
      failure_reported [of exec_fails sample_file _ ?w ?E] 5 6 7
    by (simp add: or_default_def)
qed

section \<open>The virtual input file\<close>

text \<open>
  Claim C10. The virtual input file is named input. followed by the last dot-separated
  segment of the file's name. For a name without a dot that segment is the whole name
  (clip gives input.clip); mp4 stands in only when the segment is empty, that is for an
  empty name or a name that ends in a dot. No other name is written by convertToGif.
\<close>

theorem input_name_last_segment:
  "inputName f = ''input.'' @ (if spec_last_segment (file_name f) = [] then ''mp4''
                              else spec_last_segment (file_name f))
   \<and> (CHR ''.'' \<notin> set (file_name f) \<longrightarrow> spec_last_segment (file_name f) = file_name f)
   \<and> (spec_last_segment (file_name f) = []
        \<longleftrightarrow> file_name f = [] \<or> last (file_name f) = CHR ''.'')
   \<and> inputName \<lparr>file_name = ''clip'', file_type = t, file_size = n\<rparr> = ''input.clip''
   \<and> inputName \<lparr>file_name = ''clip.'', file_type = t, file_size = n\<rparr> = ''input.mp4''
   \<and> set (written (new_events w (snd (convertToGif env f options w)))) \<subseteq> {inputName f}
   \<and> (convertToGif env f options w = (Inr res, w') \<longrightarrow>
        written (new_events w w') = [inputName f])"
proof -
  have 1: "inputName f = ''input.'' @ (if spec_last_segment (file_name f) = [] then ''mp4''
                              else spec_last_segment (file_name f))"
    by (simp add: inputName_def inputExt_def pop_js_split)
  have 2: "inputName \<lparr>file_name = ''clip'', file_type = t, file_size = n\<rparr> = ''input.clip''
     \<and> inputName \<lparr>file_name = ''clip.'', file_type = t, file_size = n\<rparr> = ''input.mp4''"
    by (simp add: inputName_def inputExt_def pop_def)
  have c: "convertToGif env f options w
      = (fst (convertToGif env f options w), snd (convertToGif env f options w))"
    by simp
  have 3: "set (written (new_events w (snd (convertToGif env f options w)))) \<subseteq> {inputName f}"
    using convertToGif_trace [OF c] by blast
  have 4: "written (new_events w w') = [inputName f]"
    if "convertToGif env f options w = (Inr res, w')"
    using convertToGif_success [OF that] by blast
  show ?thesis
    using 1 2 3 4 spec_last_segment_no_dot spec_last_segment_empty by blast
qed

theorem input_name_last_segment_witness:
  "inputName \<lparr>file_name = ''holiday.2024.MOV'', file_type = '''', file_size = 1\<rparr> = ''input.MOV''
   \<and> inputName \<lparr>file_name = ''clip'', file_type = '''', file_size = 1\<rparr> = ''input.clip''
   \<and> written (new_events init (snd (convertToGif engine_ok sample_file medium_options init)))
       = [''input.mp4'']"
proof -
  have c: "convertToGif engine_ok sample_file medium_options init
      = (Inr \<lparr>blob = [71, 73, 70, 56, 57, 97], url = 0, size_r = 6\<rparr>,
         snd (convertToGif engine_ok sample_file medium_options init))"
    using sample_conversion by (metis prod.collapse)
  have s: "spec_last_segment ''holiday.2024.MOV'' = ''MOV''"
    by (simp add: spec_last_segment_def)
  have n: "inputName sample_file = ''input.mp4''"
    by (simp add: inputName_def inputExt_def pop_def sample_file_def)
  show ?thesis
    using input_name_last_segment
            [of "\<lparr>file_name = ''holiday.2024.MOV'', file_type = '''', file_size = 1\<rparr>" "''''" 1]
      input_name_last_segment [of sample_file _ _ init engine_ok medium_options] c s n
    by simp
qed

section \<open>Operations of the component, one after the other\<close>

lemma handleConvert_cases:
  obtains
    (idle) "selectedFile w = None" "handleConvert env w = w"
  | (converted) f res w' where "selectedFile w = Some f"
      "convertToGif env f
         \<lparr>opt_fps = None, opt_quality = Some (selectedQuality w), opt_loop = None\<rparr> w
       = (Inr res, w')"
      "handleConvert env w = showToast CONVERT_OK_MESSAGE success (w'\<lparr>result := Some res\<rparr>)"
  | (failed) f e w' where "selectedFile w = Some f"
      "convertToGif env f
         \<lparr>opt_fps = None, opt_quality = Some (selectedQuality w), opt_loop = None\<rparr> w
       = (Inl e, w')"
      "handleConvert env w
       = showToast (or_default (error w') CONVERT_FAILED_MESSAGE) error_toast w'"
proof (cases "selectedFile w")
  case None
  then show ?thesis using idle by (simp add: handleConvert_def)
next
  case (Some f)
  let ?o = "\<lparr>opt_fps = None, opt_quality = Some (selectedQuality w), opt_loop = None\<rparr>"
  obtain r w' where c: "convertToGif env f ?o w = (r, w')"
    by (cases "convertToGif env f ?o w")
  show ?thesis
  proof (cases r)
    case (Inl e)
    then show ?thesis using failed [of f e w'] Some c by (simp add: handleConvert_def)
  next
    case (Inr res)
    then show ?thesis using converted [of f res w'] Some c by (simp add: handleConvert_def)
  qed
qed

lemma toast_simps [simp]:
  "trace (showToast m t w) = trace w" "result (showToast m t w) = result w"
  "next_url (showToast m t w) = next_url w" "ffmpeg (showToast m t w) = ffmpeg w"
  "isLoaded (showToast m t w) = isLoaded w" "ready (showToast m t w) = ready w"
  "new_events w0 (showToast m t w) = new_events w0 w"
  by (simp_all add: showToast_def ready_def new_events_def)

lemma result_update_simps [simp]:
  "ready (w\<lparr>result := r\<rparr>) = ready w"
  "new_events w0 (w\<lparr>result := r\<rparr>) = new_events w0 w"
  by (simp_all add: ready_def new_events_def)

lemma reuses_revoke [simp]: "reuses engine (RevokeObjectURL u, b, s)"
  by (simp add: reuses_def)

lemma selectFile_trace:
  "trace (selectFile f w) = trace w @ new_events w (selectFile f w)
   \<and> new_events w (selectFile f w)
      = (case result w of None \<Rightarrow> [] | Some r \<Rightarrow> [(RevokeObjectURL (url r), True, refs.truncate w)])
   \<and> result (selectFile f w) = None \<and> selectedFile (selectFile f w) = Some f
   \<and> next_url (selectFile f w) = next_url w \<and> ffmpeg (selectFile f w) = ffmpeg w
   \<and> isLoaded (selectFile f w) = isLoaded w"
  by (simp add: selectFile_def Let_def cleanup_def emit_def new_events_def split: option.splits)

lemma clearFile_trace:
  "trace (clearFile w) = trace w @ new_events w (clearFile w)
   \<and> new_events w (clearFile w)
      = (case result w of None \<Rightarrow> []
         | Some r \<Rightarrow> [(RevokeObjectURL (url r), True, refs.truncate (w\<lparr>selectedFile := None\<rparr>))])
   \<and> result (clearFile w) = None \<and> selectedFile (clearFile w) = None
   \<and> next_url (clearFile w) = next_url w \<and> ffmpeg (clearFile w) = ffmpeg w
   \<and> isLoaded (clearFile w) = isLoaded w"
  by (simp add: clearFile_def Let_def cleanup_def emit_def new_events_def split: option.splits)

lemma onUnmounted_trace:
  "trace (onUnmounted w) = trace w @ new_events w (onUnmounted w)
   \<and> new_events w (onUnmounted w)
      = (case result w of None \<Rightarrow> [] | Some r \<Rightarrow> [(RevokeObjectURL (url r), True, refs.truncate w)])
   \<and> next_url (onUnmounted w) = next_url w"
  by (simp add: onUnmounted_def cleanup_def emit_def new_events_def split: option.splits)

lemma urls_ok_release:
  assumes "urls_ok w" "trace w' = trace w @ new"
    "new = (case result w of None \<Rightarrow> [] | Some r \<Rightarrow> [(RevokeObjectURL (url r), True, s)])"
    "next_url w' = next_url w" "result w' = None \<or> new = []  \<and> result w' = result w"
  shows "urls_ok w'"
  using assms
  by (auto simp: urls_ok_def revoked_append split: option.splits)

lemma urls_ok_quiet:
  assumes "urls_ok w" "trace w' = trace w @ new" "revoked new = []"
    "next_url w \<le> next_url w'" "result w' = result w"
  shows "urls_ok w'"
  using assms
  by (auto simp: urls_ok_def revoked_append list_all_iff split: option.splits)

lemma urls_ok_fresh:
  assumes "urls_ok w" "trace w' = trace w @ new" "revoked new = []"
    "next_url w' = Suc (next_url w)" "result w' = Some r" "url r = next_url w"
  shows "urls_ok w'"
  using assms
  by (auto simp: urls_ok_def revoked_append list_all_iff split: option.splits)

subsection \<open>Object URLs\<close>

lemma urls_ok_same:
  "urls_ok w \<Longrightarrow> trace w' = trace w \<Longrightarrow> next_url w' = next_url w \<Longrightarrow>
   result w' = result w \<Longrightarrow> urls_ok w'"
  by (cases "result w") (simp_all add: urls_ok_def)

lemma selectFile_urls: "urls_ok w \<Longrightarrow> urls_ok (selectFile f w)"
  using selectFile_trace [of f w]
  by (intro urls_ok_release [of w "selectFile f w" "new_events w (selectFile f w)" "refs.truncate w"])
     simp_all

lemma clearFile_urls: "urls_ok w \<Longrightarrow> urls_ok (clearFile w)"
  using clearFile_trace [of w]
  by (intro urls_ok_release [of w "clearFile w" "new_events w (clearFile w)"
        "refs.truncate (w\<lparr>selectedFile := None\<rparr>)"])
     simp_all

lemma onUnmounted_distinct: "urls_ok w \<Longrightarrow> distinct (revoked (trace (onUnmounted w)))"
  by (auto simp: urls_ok_def onUnmounted_def cleanup_def emit_def revoked_append
      split: option.splits)

lemma convertToGif_urls:
  assumes "urls_ok w" "convertToGif env file options w = (r, w')"
  shows "urls_ok w'"
  using assms(1) convertToGif_trace [OF assms(2)] convertToGif_refs [OF assms(2)]
  by (intro urls_ok_quiet [of w w' "new_events w w'"]) simp_all

lemma loadFFmpeg_urls:
  assumes "urls_ok w" "loadFFmpeg env w = (r, w')"
  shows "urls_ok w'"
  using assms(1) loadFFmpeg_trace [OF assms(2)] loadFFmpeg_refs [OF assms(2)]
  by (intro urls_ok_quiet [of w w' "new_events w w'"]) simp_all

lemma handleConvert_urls:
  assumes "urls_ok w"
  shows "urls_ok (handleConvert env w)"
proof (cases rule: handleConvert_cases [of w env])
  case idle
  then show ?thesis using assms by simp
next
  case (converted f res w')
  note T = convertToGif_trace [OF converted(2)]
  note S = convertToGif_success [OF converted(2)]
  let ?w = "showToast CONVERT_OK_MESSAGE success (w'\<lparr>result := Some res\<rparr>)"
  have "urls_ok ?w"
    using assms T S
    by (intro urls_ok_fresh [of w ?w "new_events w w'" res]) (simp_all add: showToast_def)
  then show ?thesis using converted(3) by simp
next
  case (failed f e w')
  have "urls_ok w'" using convertToGif_urls [OF assms failed(2)] .
  then have "urls_ok (showToast (or_default (error w') CONVERT_FAILED_MESSAGE) error_toast w')"
    by (rule urls_ok_same) simp_all
  then show ?thesis using failed(3) by simp
qed

lemma step_urls: "urls_ok w \<Longrightarrow> urls_ok (step x w)"
proof (cases x)
  case DragOver
  assume "urls_ok w"
  then have "urls_ok (handleDragOver w)"
    by (rule urls_ok_same) (simp_all add: handleDragOver_def)
  then show ?thesis using DragOver by simp
next
  case DragLeave
  assume "urls_ok w"
  then have "urls_ok (handleDragLeave w)"
    by (rule urls_ok_same) (simp_all add: handleDragLeave_def)
  then show ?thesis using DragLeave by simp
next
  case (Drop dropped)
  assume u: "urls_ok w"
  then have u1: "urls_ok (w\<lparr>isDragOver := False\<rparr>)"
    by (rule urls_ok_same) simp_all
  then have "urls_ok (showToast m t (w\<lparr>isDragOver := False\<rparr>))" for m t
    by (rule urls_ok_same) simp_all
  then show ?thesis using Drop u1 selectFile_urls [OF u1]
    by (simp add: handleDrop_def Let_def split: option.splits)
next
  case (FileInput picked)
  assume "urls_ok w"
  then show ?thesis using FileInput selectFile_urls
    by (simp add: handleFileInput_def split: option.splits)
next
  case (SelectQuality q)
  assume "urls_ok w"
  then have "urls_ok (w\<lparr>selectedQuality := q\<rparr>)"
    by (rule urls_ok_same) simp_all
  then show ?thesis using SelectQuality by simp
next
  case ClearFile
  assume "urls_ok w"
  then show ?thesis using ClearFile clearFile_urls by simp
next
  case (Convert env)
  assume "urls_ok w"
  then show ?thesis using Convert handleConvert_urls by simp
next
  case (LoadFFmpeg env)
  assume "urls_ok w"
  then show ?thesis using LoadFFmpeg loadFFmpeg_urls [OF _ surjective_pairing, of w env] by simp
next
  case (ConvertToGif env f options)
  assume "urls_ok w"
  then show ?thesis
    using ConvertToGif convertToGif_urls [OF _ surjective_pairing, of w env f options] by simp
qed

lemma run_urls: "urls_ok w \<Longrightarrow> urls_ok (run xs w)"
  by (induction xs arbitrary: w) (simp_all add: step_urls)

lemma init_urls: "urls_ok init"
  by (simp add: urls_ok_def init_def)

lemma step_trace: "trace (step x w) = trace w @ new_events w (step x w)"
proof (cases x)
  case (Drop dropped)
  let ?w1 = "w\<lparr>isDragOver := False\<rparr>"
  have "trace (selectFile f ?w1) = trace w @ new_events w (selectFile f ?w1)" for f
    using selectFile_trace [of f ?w1] new_events_same_trace(1) [of ?w1 w "selectFile f ?w1"]
    by simp
  moreover have "trace (showToast m t ?w1) = trace w @ new_events w (showToast m t ?w1)" for m t
    by (simp add: new_events_def)
  ultimately show ?thesis using Drop
    by (simp add: handleDrop_def Let_def split: option.splits)
next
  case (FileInput picked)
  then show ?thesis using selectFile_trace [of _ w]
    by (cases picked) (simp_all add: handleFileInput_def new_events_refl)
next
  case ClearFile
  then show ?thesis using clearFile_trace by simp
next
  case (Convert env)
  show ?thesis
  proof (cases rule: handleConvert_cases [of w env])
    case idle
    then show ?thesis using Convert by (simp add: new_events_def)
  next
    case (converted f res w')
    then show ?thesis using Convert convertToGif_trace [OF converted(2)] by simp
  next
    case (failed f e w')
    then show ?thesis using Convert convertToGif_trace [OF failed(2)] by simp
  qed
next
  case (LoadFFmpeg env)
  then show ?thesis using loadFFmpeg_trace [OF surjective_pairing, of env w] by simp
next
  case (ConvertToGif env f options)
  then show ?thesis using convertToGif_trace [OF surjective_pairing, of env f options w] by simp
qed (simp_all add: new_events_def handleDragOver_def handleDragLeave_def)

lemma run_trace: "trace (run xs w) = trace w @ new_events w (run xs w)"
proof (induction xs arbitrary: w)
  case Nil
  then show ?case by (simp add: new_events_def)
next
  case (Cons x xs)
  show ?case
    using new_events_trans [OF step_trace [of x w] Cons.IH [of "step x w"]] by simp
qed

section \<open>Release of the result's object URL\<close>

lemma distinct_count_list: "distinct xs \<Longrightarrow> x \<in> set xs \<Longrightarrow> count_list xs x = 1"
  by (induction xs) auto

lemma run_keeps_revoked:
  "u \<in> set (revoked (trace w)) \<Longrightarrow> u \<in> set (revoked (trace (run xs w)))"
  using run_trace [of xs w] revoked_append [of "trace w" "new_events w (run xs w)"] by simp

lemma onUnmounted_keeps_revoked:
  "u \<in> set (revoked (trace w)) \<Longrightarrow> u \<in> set (revoked (trace (onUnmounted w)))"
  using onUnmounted_trace [of w] revoked_append [of "trace w" "new_events w (onUnmounted w)"]
  by simp

lemma released_stays_released_once:
  assumes "urls_ok w" "u \<in> set (revoked (trace w))"
  shows "count_list (revoked (trace (run xs w))) u = 1
     \<and> count_list (revoked (trace (onUnmounted (run xs w)))) u = 1"
proof -
  have "urls_ok (run xs w)" using assms(1) by (rule run_urls)
  then have d: "distinct (revoked (trace (run xs w)))"
      "distinct (revoked (trace (onUnmounted (run xs w))))"
    using onUnmounted_distinct by (simp_all add: urls_ok_def)
  have m: "u \<in> set (revoked (trace (run xs w)))"
    using assms(2) by (rule run_keeps_revoked)
  then have "u \<in> set (revoked (trace (onUnmounted (run xs w))))"
    by (rule onUnmounted_keeps_revoked)
  then show ?thesis using d m by (simp add: distinct_count_list)
qed

lemma sample_result:
  "result (run [FileInput (Some sample_file), Convert engine_ok] init)
     = Some \<lparr>blob = [71, 73, 70, 56, 57, 97], url = 0, size_r = 6\<rparr>"
  by (simp add: eval_defs handleFileInput_def selectFile_def handleConvert_def showToast_def)

text \<open>
  Claim C7. In a world reached by any operations, with a result present: selectFile
  releases the result's URL with one call, made while the previously selected file is
  still the selected one, empties the result slot and then accepts the new file;
  clearFile releases it with one call and empties the slot. Whatever operations follow,
  with or without the teardown at unmount, that URL has been released exactly once; and
  in every run no URL is released twice.
\<close>

theorem result_released_once:
  assumes "w = run before init" "result w = Some r"
  shows "new_events w (selectFile f w) = [(RevokeObjectURL (url r), True, refs.truncate w)]
     \<and> result (selectFile f w) = None \<and> selectedFile (selectFile f w) = Some f
     \<and> new_events w (clearFile w)
         = [(RevokeObjectURL (url r), True, refs.truncate (w\<lparr>selectedFile := None\<rparr>))]
     \<and> result (clearFile w) = None
     \<and> url r \<notin> set (revoked (trace w))
     \<and> count_list (revoked (trace (run after (selectFile f w)))) (url r) = 1
     \<and> count_list (revoked (trace (onUnmounted (run after (selectFile f w))))) (url r) = 1
     \<and> count_list (revoked (trace (run after (clearFile w)))) (url r) = 1
     \<and> count_list (revoked (trace (onUnmounted (run after (clearFile w))))) (url r) = 1
     \<and> distinct (revoked (trace (run after w)))
     \<and> distinct (revoked (trace (onUnmounted (run after w))))"
proof -
  have u: "urls_ok w" using assms(1) init_urls run_urls by simp
  note S = selectFile_trace [of f w]
  note C = clearFile_trace [of w]
  have s: "new_events w (selectFile f w) = [(RevokeObjectURL (url r), True, refs.truncate w)]
     \<and> result (selectFile f w) = None \<and> selectedFile (selectFile f w) = Some f"
    using S assms(2) by simp
  have c: "new_events w (clearFile w)
         = [(RevokeObjectURL (url r), True, refs.truncate (w\<lparr>selectedFile := None\<rparr>))]
     \<and> result (clearFile w) = None"
    using C assms(2) by simp
  have n: "url r \<notin> set (revoked (trace w))"
    using u assms(2) by (simp add: urls_ok_def)
  have "url r \<in> set (revoked (trace (selectFile f w)))"
    using S assms(2) by (simp add: revoked_append)
  then have s1: "count_list (revoked (trace (run after (selectFile f w)))) (url r) = 1
     \<and> count_list (revoked (trace (onUnmounted (run after (selectFile f w))))) (url r) = 1"
    using released_stays_released_once [OF selectFile_urls [OF u]] by blast
  have "url r \<in> set (revoked (trace (clearFile w)))"
    using C assms(2) by (simp add: revoked_append)
  then have c1: "count_list (revoked (trace (run after (clearFile w)))) (url r) = 1
     \<and> count_list (revoked (trace (onUnmounted (run after (clearFile w))))) (url r) = 1"
    using released_stays_released_once [OF clearFile_urls [OF u]] by blast
  have "urls_ok (run after w)" using u by (rule run_urls)
  then have d: "distinct (revoked (trace (run after w)))
     \<and> distinct (revoked (trace (onUnmounted (run after w))))"
    using onUnmounted_distinct by (simp add: urls_ok_def)
  show ?thesis using s c n s1 c1 d by blast
qed

theorem result_released_once_witness:
  "result (run [FileInput (Some sample_file), Convert engine_ok] init)
     = Some \<lparr>blob = [71, 73, 70, 56, 57, 97], url = 0, size_r = 6\<rparr>
   \<and> revoked (new_events (run [FileInput (Some sample_file), Convert engine_ok] init)
        (selectFile oversized_file (run [FileInput (Some sample_file), Convert engine_ok] init)))
       = [0]
   \<and> count_list (revoked (trace (onUnmounted (run [Convert engine_ok, ClearFile, Drop (Some sample_file)]
        (selectFile oversized_file
           (run [FileInput (Some sample_file), Convert engine_ok] init)))))) 0 = 1"
  using result_released_once [OF refl sample_result, of oversized_file
          "[Convert engine_ok, ClearFile, Drop (Some sample_file)]"]
    sample_result
  by simp

section \<open>The engine is initialised once\<close>

subsection \<open>The engine\<close>

lemma engine_kept_quiet:
  assumes "ffmpeg w' = ffmpeg w" "isLoaded w' = isLoaded w"
    "initialisations (new_events w w') = []" "list_all (reuses (ffmpeg w)) (new_events w w')"
  shows "engine_kept w w'"
  using assms by (simp add: engine_kept_def ready_def)

lemma selectFile_engine: "engine_kept w (selectFile f w)"
  using selectFile_trace [of f w]
  by (intro engine_kept_quiet) (simp_all split: option.splits)

lemma clearFile_engine: "engine_kept w (clearFile w)"
  using clearFile_trace [of w]
  by (intro engine_kept_quiet) (simp_all split: option.splits)

lemma loadFFmpeg_engine:
  assumes "loadFFmpeg env w = (r, w')"
  shows "engine_kept w w'"
proof (cases "ready w")
  case True
  then show ?thesis using assms loadFFmpeg_ready [of w env]
    by (simp add: engine_kept_def new_events_refl)
next
  case False
  then show ?thesis using loadFFmpeg_not_ready [OF False assms]
    by (cases r) (auto simp: engine_kept_def ready_def)
qed

lemma reuses_eq:
  "reuses engine = (\<lambda>(ev, ok, s). \<not> engine_init_event ev
      \<and> (event_instance ev = None \<or> event_instance ev = engine))"
  by (auto simp: reuses_def fun_eq_iff)

lemma convertToGif_kept:
  assumes "convertToGif env file options w = (r, w')"
  shows "engine_kept w w'"
proof (cases "ready w")
  case True
  then have "ready w' \<and> ffmpeg w' = ffmpeg w \<and> initialisations (new_events w w') = []
      \<and> list_all (reuses (ffmpeg w)) (new_events w w')"
    using convertToGif_engine [OF assms] unfolding reuses_eq by (simp add: ready_def)
  then show ?thesis using True by (simp add: engine_kept_def)
next
  case False
  then show ?thesis using convertToGif_engine [OF assms] by (simp add: engine_kept_def)
qed

lemma engine_kept_same_trace:
  assumes "engine_kept w w'" "trace w'' = trace w'" "ffmpeg w'' = ffmpeg w'"
    "isLoaded w'' = isLoaded w'"
  shows "engine_kept w w''"
proof -
  have "new_events w w'' = new_events w w'" "ready w'' = ready w'"
    using assms(2,3,4) by (simp_all add: new_events_def ready_def)
  then have "engine_kept w w'' = engine_kept w w'"
    using assms(3) by (simp add: engine_kept_def)
  then show ?thesis using assms(1) by simp
qed

lemma engine_kept_same_start:
  assumes "engine_kept w1 w'" "trace w1 = trace w" "ffmpeg w1 = ffmpeg w"
    "isLoaded w1 = isLoaded w"
  shows "engine_kept w w'"
proof -
  have "new_events w1 w' = new_events w w'" "ready w1 = ready w"
    using assms(2,3,4) by (simp_all add: new_events_def ready_def)
  then have "engine_kept w1 w' = engine_kept w w'"
    using assms(3) by (simp add: engine_kept_def)
  then show ?thesis using assms(1) by simp
qed

lemma handleConvert_engine: "engine_kept w (handleConvert env w)"
proof (cases rule: handleConvert_cases [of w env])
  case idle
  then show ?thesis by (simp add: engine_kept_quiet new_events_refl)
next
  case (converted f res w')
  have "engine_kept w w'" using convertToGif_kept [OF converted(2)] .
  then have "engine_kept w (showToast CONVERT_OK_MESSAGE success (w'\<lparr>result := Some res\<rparr>))"
    by (rule engine_kept_same_trace) (simp_all add: showToast_def)
  then show ?thesis using converted(3) by simp
next
  case (failed f e w')
  have "engine_kept w w'" using convertToGif_kept [OF failed(2)] .
  then have "engine_kept w (showToast (or_default (error w') CONVERT_FAILED_MESSAGE) error_toast w')"
    by (rule engine_kept_same_trace) (simp_all add: showToast_def)
  then show ?thesis using failed(3) by simp
qed

lemma step_engine: "engine_kept w (step x w)"
proof (cases x)
  case DragOver
  then show ?thesis by (simp add: engine_kept_quiet new_events_def handleDragOver_def)
next
  case DragLeave
  then show ?thesis by (simp add: engine_kept_quiet new_events_def handleDragLeave_def)
next
  case (Drop dropped)
  let ?w1 = "w\<lparr>isDragOver := False\<rparr>"
  have a: "engine_kept w ?w1"
    by (simp add: engine_kept_quiet new_events_def)
  have "engine_kept ?w1 (selectFile f ?w1)" for f
    by (rule selectFile_engine)
  then have b: "engine_kept w (selectFile f ?w1)" for f
    by (rule engine_kept_same_start) simp_all
  have c: "engine_kept w (showToast m t ?w1)" for m t
    using a by (rule engine_kept_same_trace) (simp_all add: showToast_def)
  show ?thesis using Drop b c
    by (simp add: handleDrop_def Let_def split: option.splits)
next
  case (FileInput picked)
  then show ?thesis using selectFile_engine
    by (cases picked) (simp_all add: handleFileInput_def engine_kept_quiet new_events_refl)
next
  case (SelectQuality q)
  then show ?thesis by (simp add: engine_kept_quiet new_events_def)
next
  case ClearFile
  then show ?thesis using clearFile_engine by simp
next
  case (Convert env)
  then show ?thesis using handleConvert_engine by simp
next
  case (LoadFFmpeg env)
  then show ?thesis using loadFFmpeg_engine [OF surjective_pairing] by simp
next
  case (ConvertToGif env f options)
  then show ?thesis using convertToGif_kept [OF surjective_pairing] by simp
qed

lemma engine_kept_refl: "engine_kept w w"
  by (simp add: engine_kept_def new_events_refl)

lemma engine_kept_trans:
  assumes "engine_kept w w1" "engine_kept w1 w2"
    "trace w1 = trace w @ new_events w w1" "trace w2 = trace w1 @ new_events w1 w2"
  shows "engine_kept w w2"
proof -
  have n: "new_events w w2 = new_events w w1 @ new_events w1 w2"
    using new_events_trans [OF assms(3,4)] by simp
  show ?thesis
  proof (cases "ready w")
    case True
    then show ?thesis using assms(1,2)
      by (simp add: engine_kept_def n initialisations_append)
  next
    case False
    then show ?thesis using assms(1,2)
      by (cases "ready w1") (simp_all add: engine_kept_def n initialisations_append)
  qed
qed

lemma run_engine: "engine_kept w (run xs w)"
proof (induction xs arbitrary: w)
  case Nil
  then show ?case by (simp add: engine_kept_refl)
next
  case (Cons x xs)
  show ?case
    using engine_kept_trans [OF step_engine [of w x] Cons.IH [of "step x w"]
            step_trace [of x w] run_trace [of xs "step x w"]]
    by simp
qed

lemma warm_loaded: "ffmpeg warm = Some 0 \<and> isLoaded warm"
  by (simp add: eval_more)

lemma cold_load: "ffmpeg init = None \<and> fst (loadFFmpeg engine_ok init) = Inr () \<and> next_instance init = 0"
  by (simp add: eval_more)

text \<open>
  Claim C9. loadFFmpeg, called when the engine is there and the loaded flag is set,
  returns at once: no world change, no external call. Otherwise it starts to fetch and
  initialise an engine, every one of its external calls being made while the loading flag
  is set, and the flag is cleared when it ends; when it returns normally the engine is
  the new instance. In every run of operations from the initial world at most one
  initialisation succeeds, and once the engine is ready every later operation keeps that
  instance, makes its engine calls on it, and neither fetches nor creates another.
\<close>

theorem engine_initialised_once:
  "(ffmpeg w \<noteq> None \<and> isLoaded w \<longrightarrow> loadFFmpeg env w = (Inr (), w))
   \<and> (\<not> (ffmpeg w \<noteq> None \<and> isLoaded w) \<longrightarrow>
        (case new_events w (snd (loadFFmpeg env w)) of
           [] \<Rightarrow> False
         | (ev, returned, at_call) # _ \<Rightarrow> ev = Import ''@ffmpeg/ffmpeg'')
        \<and> list_all (\<lambda>(ev, returned, at_call). isLoading at_call)
             (new_events w (snd (loadFFmpeg env w)))
        \<and> \<not> isLoading (snd (loadFFmpeg env w))
        \<and> (fst (loadFFmpeg env w) = Inr () \<longrightarrow>
             ffmpeg (snd (loadFFmpeg env w)) = Some (next_instance w)
             \<and> isLoaded (snd (loadFFmpeg env w))
             \<and> map fst (new_events w (snd (loadFFmpeg env w)))
                 = [Import ''@ffmpeg/ffmpeg'', Import ''@ffmpeg/util'', New_FFmpeg (next_instance w),
                    ToBlobURL (baseURL @ ''/ffmpeg-core.js'') ''text/javascript'',
                    ToBlobURL (baseURL @ ''/ffmpeg-core.wasm'') ''application/wasm'',
                    Load (next_instance w)]))
   \<and> length (initialisations (trace (run xs init))) \<le> 1
   \<and> (ffmpeg w \<noteq> None \<and> isLoaded w \<longrightarrow>
        ffmpeg (run xs w) = ffmpeg w \<and> isLoaded (run xs w)
        \<and> list_all (reuses (ffmpeg w)) (new_events w (run xs w))
        \<and> initialisations (new_events w (run xs w)) = [])"
proof -
  have a: "loadFFmpeg env w = (Inr (), w)" if "ffmpeg w \<noteq> None \<and> isLoaded w"
    using that loadFFmpeg_ready [of w env] by (simp add: ready_def)
  have b: "(case new_events w (snd (loadFFmpeg env w)) of
           [] \<Rightarrow> False
         | (ev, returned, at_call) # _ \<Rightarrow> ev = Import ''@ffmpeg/ffmpeg'')
        \<and> list_all (\<lambda>(ev, returned, at_call). isLoading at_call)
             (new_events w (snd (loadFFmpeg env w)))
        \<and> \<not> isLoading (snd (loadFFmpeg env w))
        \<and> (fst (loadFFmpeg env w) = Inr () \<longrightarrow>
             ffmpeg (snd (loadFFmpeg env w)) = Some (next_instance w)
             \<and> isLoaded (snd (loadFFmpeg env w))
             \<and> map fst (new_events w (snd (loadFFmpeg env w)))
                 = [Import ''@ffmpeg/ffmpeg'', Import ''@ffmpeg/util'', New_FFmpeg (next_instance w),
                    ToBlobURL (baseURL @ ''/ffmpeg-core.js'') ''text/javascript'',
                    ToBlobURL (baseURL @ ''/ffmpeg-core.wasm'') ''application/wasm'',
                    Load (next_instance w)])"
    if "\<not> (ffmpeg w \<noteq> None \<and> isLoaded w)"
  proof -
    have nr: "\<not> ready w" using that by (simp add: ready_def)
    note N = loadFFmpeg_not_ready [OF nr surjective_pairing, of env]
    note T = loadFFmpeg_trace [OF surjective_pairing, of env w]
    have 1: "case new_events w (snd (loadFFmpeg env w)) of
           [] \<Rightarrow> False
         | (ev, returned, at_call) # _ \<Rightarrow> ev = Import ''@ffmpeg/ffmpeg''"
      using N by (auto split: list.splits)
    have 2: "list_all (\<lambda>(ev, returned, at_call). isLoading at_call)
             (new_events w (snd (loadFFmpeg env w)))"
      using T by (auto simp: list_all_iff)
    have 3: "\<not> isLoading (snd (loadFFmpeg env w))"
      using N by simp
    have 4: "ffmpeg (snd (loadFFmpeg env w)) = Some (next_instance w)
             \<and> isLoaded (snd (loadFFmpeg env w))
             \<and> map fst (new_events w (snd (loadFFmpeg env w)))
                 = [Import ''@ffmpeg/ffmpeg'', Import ''@ffmpeg/util'', New_FFmpeg (next_instance w),
                    ToBlobURL (baseURL @ ''/ffmpeg-core.js'') ''text/javascript'',
                    ToBlobURL (baseURL @ ''/ffmpeg-core.wasm'') ''application/wasm'',
                    Load (next_instance w)]"
      if "fst (loadFFmpeg env w) = Inr ()"
      using N that by simp
    show ?thesis using 1 2 3 4 by blast
  qed
  have c: "length (initialisations (trace (run xs init))) \<le> 1"
  proof -
    have "\<not> ready init" by (simp add: ready_def init_def)
    moreover have "new_events init (run xs init) = trace (run xs init)"
      by (simp add: new_events_def init_def)
    ultimately show ?thesis using run_engine [of init xs]
      by (simp add: engine_kept_def split: if_splits)
  qed
  have d: "ffmpeg (run xs w) = ffmpeg w \<and> isLoaded (run xs w)
        \<and> list_all (reuses (ffmpeg w)) (new_events w (run xs w))
        \<and> initialisations (new_events w (run xs w)) = []"
    if "ffmpeg w \<noteq> None \<and> isLoaded w"
  proof -
    have "ready w" using that by (simp add: ready_def)
    then show ?thesis using run_engine [of w xs]
      by (simp add: engine_kept_def ready_def)
  qed
  show ?thesis using a b c d by blast
qed

theorem engine_initialised_once_witness:
  "loadFFmpeg fetch_fails warm = (Inr (), warm)
   \<and> map fst (new_events init (snd (loadFFmpeg engine_ok init)))
       = [Import ''@ffmpeg/ffmpeg'', Import ''@ffmpeg/util'', New_FFmpeg 0,
          ToBlobURL (baseURL @ ''/ffmpeg-core.js'') ''text/javascript'',
          ToBlobURL (baseURL @ ''/ffmpeg-core.wasm'') ''application/wasm'', Load 0]
   \<and> ffmpeg (snd (loadFFmpeg engine_ok init)) = Some 0
   \<and> ffmpeg (run [FileInput (Some sample_file), Convert exec_fails, Convert engine_ok,
                  LoadFFmpeg fetch_fails] warm) = Some 0
   \<and> initialisations (new_events warm
        (run [FileInput (Some sample_file), Convert exec_fails, Convert engine_ok,
              LoadFFmpeg fetch_fails] warm)) = []
   \<and> length (initialisations (trace
        (run [FileInput (Some sample_file), Convert fetch_fails, Convert engine_ok, ClearFile,
              FileInput (Some sample_file), Convert engine_ok] init))) \<le> 1"
  using engine_initialised_once [of warm fetch_fails
          "[FileInput (Some sample_file), Convert fetch_fails, Convert engine_ok, ClearFile,
            FileInput (Some sample_file), Convert engine_ok]"]
    engine_initialised_once [of warm fetch_fails
          "[FileInput (Some sample_file), Convert exec_fails, Convert engine_ok,
            LoadFFmpeg fetch_fails]"]
    engine_initialised_once [of init engine_ok "[]"]
    warm_loaded cold_load
  by simp

end
